theory Spec2Isabelle
  imports Complex_Main "HOL-Library.Monad_Syntax"
begin

section \<open>Edge indexing (cglib/index.py)\<close>

text \<open>
  Taichi's \<open>ivec2\<close>, \<open>ivec3\<close> and \<open>ivec4\<close> are tuples of integers. Integers are
  modelled as mathematical integers (the sentinel \<open>-1\<close> and the offsets \<open>x - 2\<close> of
  the neighbourhood search need negative values). The integers of a Taichi kernel
  have 32 bits: \<open>i32 v\<close> is the value that a 32-bit signed integer holds after a
  computation whose exact result is \<open>v\<close> (two's complement wrap-around), and the two
  conversions between flat and 3D edge indices apply it to every arithmetic result.
\<close>

type_synonym ivec2 = "int \<times> int"
type_synonym ivec3 = "int \<times> int \<times> int"
type_synonym ivec4 = "int \<times> int \<times> int \<times> int"

text \<open>\<open>vec4_at v i\<close> is the component access \<open>v[i]\<close> of an \<open>ivec4\<close>.\<close>

fun vec4_at :: "ivec4 \<Rightarrow> int \<Rightarrow> int" where
  "vec4_at (a, b, c, d) i = (if i = 0 then a else if i = 1 then b else if i = 2 then c else d)"

definition index2d_to_edge_index :: "ivec2 \<Rightarrow> ivec2 \<Rightarrow> ivec4" where
  "index2d_to_edge_index cell grid_shape =
     (let shape_x = fst grid_shape;
          shape_y = snd grid_shape;
          hoizontal_top_edge_index = fst cell * shape_y + snd cell;
          horizontal_bottom_edge_index = (fst cell + 1) * shape_y + snd cell;
          first_vertical_edge_index = shape_y * (shape_x + 1);
          vertical_left_edge_index =
            first_vertical_edge_index + fst cell * (shape_y + 1) + snd cell;
          vertical_right_edge_index =
            first_vertical_edge_index + fst cell * (shape_y + 1) + snd cell + 1
      in (hoizontal_top_edge_index, vertical_right_edge_index,
          horizontal_bottom_edge_index, vertical_left_edge_index))"

definition i32 :: "int \<Rightarrow> int" where
  "i32 v = (v + 2147483648) mod 4294967296 - 2147483648"

text \<open>
  \<open>//\<close> and \<open>%\<close> are floor division and its remainder, as \<open>div\<close> and \<open>mod\<close> on
  \<open>int\<close>; a division by zero (a grid with \<open>shape.y = 0\<close>) is not defined by Taichi
  and is whatever \<open>div\<close> and \<open>mod\<close> give here.
\<close>

definition edge_1d_to_3d_index :: "ivec2 \<Rightarrow> int \<Rightarrow> ivec3" where
  "edge_1d_to_3d_index shape edge =
     (let maximal_horizontal_index = i32 (snd shape * i32 (fst shape + 1))
      in if edge < maximal_horizontal_index
         then (i32 (edge div snd shape), i32 (edge mod snd shape), 0)
         else (i32 (i32 (edge - maximal_horizontal_index) div i32 (snd shape + 1)),
               i32 (i32 (edge - maximal_horizontal_index) mod i32 (snd shape + 1)), 1))"

text \<open>
  The source starts from \<open>result = 0\<close> and has two independent \<open>if\<close> statements, one
  for \<open>z == 0\<close> and one for \<open>z == 1\<close>; any other \<open>z\<close> leaves \<open>result\<close> untouched.
\<close>

definition edge_3d_to_1d_index :: "ivec2 \<Rightarrow> int \<Rightarrow> int \<Rightarrow> int \<Rightarrow> int" where
  "edge_3d_to_1d_index shape x y z =
     (let result0 = 0;
          result1 =
            (if z = 0
             then (if x < 0 \<or> x > fst shape \<or> y < 0 \<or> y \<ge> snd shape
                   then - 1
                   else i32 (i32 (x * snd shape) + y))
             else result0);
          result2 =
            (if z = 1
             then (if x < 0 \<or> x \<ge> fst shape \<or> y < 0 \<or> y > snd shape
                   then - 1
                   else (let maximal_horizontal_index = i32 (snd shape * i32 (fst shape + 1))
                         in i32 (i32 (maximal_horizontal_index + i32 (x * i32 (snd shape + 1)))
                                 + y)))
             else result1)
      in result2)"

text \<open>The triples that denote an edge of the \<open>W \<times> H\<close> grid (spec, section 3).\<close>

definition edge_in_range :: "ivec2 \<Rightarrow> int \<Rightarrow> int \<Rightarrow> int \<Rightarrow> bool" where
  "edge_in_range shape x y z =
     ((z = 0 \<and> 0 \<le> x \<and> x \<le> fst shape \<and> 0 \<le> y \<and> y < snd shape) \<or>
      (z = 1 \<and> 0 \<le> x \<and> x < fst shape \<and> 0 \<le> y \<and> y \<le> snd shape))"

section \<open>Floating-point values and Taichi fields\<close>

text \<open>
  Floating-point values are idealised: a finite value is an exact real (no rounding,
  no overflow, one zero), \<open>NaN\<close> is a value of its own that propagates through
  arithmetic and makes every comparison false, and \<open>PInf\<close> and \<open>MInf\<close> are the
  two infinities (\<open>PInf\<close> is \<open>ti.math.inf\<close>). The operations on them follow IEEE 754:
  \<open>inf - inf\<close>, \<open>0 * inf\<close>, \<open>inf / inf\<close> and \<open>0 / 0\<close> are \<open>NaN\<close>.
\<close>

datatype fval = NaN | Fin real | PInf | MInf

fun fless :: "fval \<Rightarrow> fval \<Rightarrow> bool" where
  "fless (Fin a) (Fin b) = (a < b)"
| "fless (Fin a) PInf = True"
| "fless MInf (Fin b) = True"
| "fless MInf PInf = True"
| "fless _ _ = False"

fun fle :: "fval \<Rightarrow> fval \<Rightarrow> bool" where
  "fle (Fin a) (Fin b) = (a \<le> b)"
| "fle (Fin a) PInf = True"
| "fle PInf PInf = True"
| "fle MInf (Fin b) = True"
| "fle MInf PInf = True"
| "fle MInf MInf = True"
| "fle _ _ = False"

fun feq :: "fval \<Rightarrow> fval \<Rightarrow> bool" where
  "feq (Fin a) (Fin b) = (a = b)"
| "feq PInf PInf = True"
| "feq MInf MInf = True"
| "feq _ _ = False"

text \<open>
  \<open>fsgn\<close> is the sign of a value as an integer (0 for zero and for \<open>NaN\<close>), and
  \<open>inf_of s\<close> the infinity of sign \<open>s\<close>, or \<open>NaN\<close> when \<open>s\<close> is 0.
\<close>

fun fsgn :: "fval \<Rightarrow> int" where
  "fsgn (Fin a) = (if a < 0 then - 1 else if a = 0 then 0 else 1)"
| "fsgn PInf = 1"
| "fsgn MInf = - 1"
| "fsgn NaN = 0"

definition inf_of :: "int \<Rightarrow> fval" where
  "inf_of s = (if s = 0 then NaN else if 0 < s then PInf else MInf)"

fun fadd :: "fval \<Rightarrow> fval \<Rightarrow> fval" where
  "fadd (Fin a) (Fin b) = Fin (a + b)"
| "fadd NaN _ = NaN"
| "fadd _ NaN = NaN"
| "fadd PInf MInf = NaN"
| "fadd MInf PInf = NaN"
| "fadd PInf _ = PInf"
| "fadd _ PInf = PInf"
| "fadd MInf _ = MInf"
| "fadd _ MInf = MInf"

fun fsub :: "fval \<Rightarrow> fval \<Rightarrow> fval" where
  "fsub (Fin a) (Fin b) = Fin (a - b)"
| "fsub NaN _ = NaN"
| "fsub _ NaN = NaN"
| "fsub PInf PInf = NaN"
| "fsub MInf MInf = NaN"
| "fsub PInf _ = PInf"
| "fsub _ MInf = PInf"
| "fsub MInf _ = MInf"
| "fsub _ PInf = MInf"

fun fmul :: "fval \<Rightarrow> fval \<Rightarrow> fval" where
  "fmul (Fin a) (Fin b) = Fin (a * b)"
| "fmul NaN _ = NaN"
| "fmul _ NaN = NaN"
| "fmul a b = inf_of (fsgn a * fsgn b)"

text \<open>
  Division. The model has one zero, which divides like \<open>+0\<close>: a finite non-zero
  value divided by zero is the infinity of its sign. The pipeline divides by 4, by
  \<open>max(W, H)\<close> and by the difference of two grid values of opposite sign only.
\<close>

fun fdiv :: "fval \<Rightarrow> fval \<Rightarrow> fval" where
  "fdiv (Fin a) (Fin b) = (if b = 0 then inf_of (fsgn (Fin a)) else Fin (a / b))"
| "fdiv NaN _ = NaN"
| "fdiv _ NaN = NaN"
| "fdiv (Fin a) _ = Fin 0"
| "fdiv a (Fin b) = inf_of (fsgn a * (if b < 0 then - 1 else 1))"
| "fdiv _ _ = NaN"

fun fsqrt :: "fval \<Rightarrow> fval" where
  "fsqrt (Fin a) = (if a < 0 then NaN else Fin (sqrt a))"
| "fsqrt PInf = PInf"
| "fsqrt MInf = NaN"
| "fsqrt NaN = NaN"

text \<open>
  \<open>ti.math.sign\<close> is Taichi's library function (not part of this repository); it is
  \<open>(x >= 0) - (x <= 0)\<close>, so it is \<open>-1\<close>, \<open>0\<close> or \<open>1\<close>, and \<open>0\<close> at NaN.
\<close>

definition sign :: "fval \<Rightarrow> int" where
  "sign v = (if fle (Fin 0) v then 1 else 0) - (if fle v (Fin 0) then 1 else 0)"

type_synonym vec2 = "fval \<times> fval"

text \<open>
  A dense two-dimensional Taichi field: its shape and its content. Reading outside the
  shape is not defined by Taichi; \<open>get2\<close> makes it the value \<open>None\<close>.
\<close>

record 'a field2 =
  field_shape :: ivec2
  at2 :: "int \<Rightarrow> int \<Rightarrow> 'a"

definition in_shape :: "ivec2 \<Rightarrow> int \<Rightarrow> int \<Rightarrow> bool" where
  "in_shape sh x y = (0 \<le> x \<and> x < fst sh \<and> 0 \<le> y \<and> y < snd sh)"

definition get2 :: "'a field2 \<Rightarrow> int \<Rightarrow> int \<Rightarrow> 'a option" where
  "get2 f x y = (if in_shape (field_shape f) x y then Some (at2 f x y) else None)"

definition set2 :: "'a field2 \<Rightarrow> int \<Rightarrow> int \<Rightarrow> 'a \<Rightarrow> 'a field2 option" where
  "set2 f x y v =
     (if in_shape (field_shape f) x y
      then Some (f\<lparr>at2 := \<lambda>i j. if i = x \<and> j = y then v else at2 f i j\<rparr>)
      else None)"

text \<open>
  A one-dimensional field is a list; \<open>fget\<close> and \<open>fset\<close> are the accesses \<open>f[i]\<close> and
  \<open>f[i] = v\<close>, with \<open>None\<close> for an index outside \<open>[0, length)\<close> (Taichi has no
  negative indexing).
\<close>

definition fget :: "'a list \<Rightarrow> int \<Rightarrow> 'a option" where
  "fget f i = (if 0 \<le> i \<and> i < int (length f) then Some (f ! nat i) else None)"

definition fset :: "'a list \<Rightarrow> int \<Rightarrow> 'a \<Rightarrow> 'a list option" where
  "fset f i v = (if 0 \<le> i \<and> i < int (length f) then Some (f[nat i := v]) else None)"

text \<open>\<open>py_range n\<close> is Python's \<open>range(n)\<close>; \<open>fold_opt\<close> runs a serialized loop whose
  body may fail.\<close>

definition py_range :: "int \<Rightarrow> int list" where
  "py_range n = map int [0..<nat n]"

fun fold_opt :: "('a \<Rightarrow> 's \<Rightarrow> 's option) \<Rightarrow> 'a list \<Rightarrow> 's \<Rightarrow> 's option" where
  "fold_opt f [] s = Some s"
| "fold_opt f (x # xs) s = (case f x s of None \<Rightarrow> None | Some s' \<Rightarrow> fold_opt f xs s')"

section \<open>Contour extraction (cglib/graph.py)\<close>

text \<open>
  \<open>compute_binary_grid\<close> is a parallel loop over all cells of \<open>grid\<close>, each writing
  its own cell of \<open>binary_grid\<close>.
\<close>

definition binary_value :: "fval \<Rightarrow> int" where
  "binary_value v =
     (let sign = sign v
      in if sign = - 1 then 0 else if sign = 0 then 1 else 1)"

definition compute_binary_grid :: "fval field2 \<Rightarrow> int field2 \<Rightarrow> int field2" where
  "compute_binary_grid grid binary_grid =
     binary_grid\<lparr>at2 := \<lambda>x_index y_index.
        if in_shape (field_shape grid) x_index y_index
        then binary_value (at2 grid x_index y_index)
        else at2 binary_grid x_index y_index\<rparr>"

text \<open>The edge count \<open>edge_fields_shape\<close> of \<open>to_graph\<close>.\<close>

definition edge_fields_shape :: "ivec2 \<Rightarrow> int" where
  "edge_fields_shape sh = fst sh * (snd sh + 1) + snd sh * (fst sh + 1) - 1"

definition cell_configuration :: "int field2 \<Rightarrow> ivec2 \<Rightarrow> int option" where
  "cell_configuration binary_grid current_cell =
     do {
       b0 \<leftarrow> get2 binary_grid (fst current_cell) (snd current_cell);
       b1 \<leftarrow> get2 binary_grid (fst current_cell) (snd current_cell + 1);
       b2 \<leftarrow> get2 binary_grid (fst current_cell + 1) (snd current_cell + 1);
       b3 \<leftarrow> get2 binary_grid (fst current_cell + 1) (snd current_cell);
       Some (1 * b0 + 2 * b1 + 4 * b2 + 8 * b3)
     }"

definition average_value :: "fval field2 \<Rightarrow> ivec2 \<Rightarrow> fval option" where
  "average_value grid current_cell =
     do {
       g0 \<leftarrow> get2 grid (fst current_cell) (snd current_cell);
       g1 \<leftarrow> get2 grid (fst current_cell) (snd current_cell + 1);
       g2 \<leftarrow> get2 grid (fst current_cell + 1) (snd current_cell + 1);
       g3 \<leftarrow> get2 grid (fst current_cell + 1) (snd current_cell);
       Some (fdiv (fadd (fadd (fadd g0 g1) g2) g3) (Fin 4))
     }"

text \<open>
  The adjacency state is the pair \<open>(previous_edge, next_edge)\<close>. \<open>link a b\<close> is the
  pair of writes \<open>next_edge[a] = b; previous_edge[b] = a\<close>, and \<open>unlink e\<close> the pair
  \<open>next_edge[e] = -1; previous_edge[e] = -1\<close>.
\<close>

type_synonym adjacency = "int list \<times> int list"

definition link :: "int \<Rightarrow> int \<Rightarrow> adjacency \<Rightarrow> adjacency option" where
  "link a b s =
     do {
       next_edge \<leftarrow> fset (snd s) a b;
       previous_edge \<leftarrow> fset (fst s) b a;
       Some (previous_edge, next_edge)
     }"

definition unlink :: "int \<Rightarrow> adjacency \<Rightarrow> adjacency option" where
  "unlink e s =
     do {
       next_edge \<leftarrow> fset (snd s) e (- 1);
       previous_edge \<leftarrow> fset (fst s) e (- 1);
       Some (previous_edge, next_edge)
     }"

text \<open>The body of the two nested loops of \<open>compute_adajcency\<close>, for one cell.\<close>

definition adjacency_cell ::
  "fval field2 \<Rightarrow> int field2 \<Rightarrow> int \<Rightarrow> int \<Rightarrow> adjacency \<Rightarrow> adjacency option" where
  "adjacency_cell grid binary_grid x_index y_index s =
     (let grid_shape = field_shape binary_grid
      in if x_index \<noteq> fst grid_shape - 1 \<and> y_index \<noteq> snd grid_shape - 1
         then
           (let current_cell = (x_index, y_index);
                edge_indexes = index2d_to_edge_index current_cell grid_shape;
                e = vec4_at edge_indexes
            in do {
              current_cell_configuration \<leftarrow> cell_configuration binary_grid current_cell;
              if current_cell_configuration = 0 \<or> current_cell_configuration = 15
              then fold_opt (\<lambda>i. unlink (e i)) [0, 1, 2, 3] s
              else if current_cell_configuration = 1 then link (e 0) (e 3) s
              else if current_cell_configuration = 2 then link (e 1) (e 0) s
              else if current_cell_configuration = 3 then link (e 1) (e 3) s
              else if current_cell_configuration = 4 then link (e 2) (e 1) s
              else if current_cell_configuration = 5
              then do {
                average_value \<leftarrow> average_value grid current_cell;
                if fless (Fin 0) average_value
                then link (e 0) (e 1) s \<bind> link (e 2) (e 3)
                else link (e 0) (e 3) s \<bind> link (e 2) (e 1)
              }
              else if current_cell_configuration = 6 then link (e 2) (e 0) s
              else if current_cell_configuration = 7 then link (e 2) (e 3) s
              else if current_cell_configuration = 8 then link (e 3) (e 2) s
              else if current_cell_configuration = 9 then link (e 0) (e 2) s
              else if current_cell_configuration = 10
              then do {
                average_value \<leftarrow> average_value grid current_cell;
                if fless average_value (Fin 0)
                then link (e 1) (e 0) s \<bind> link (e 3) (e 2)
                else link (e 3) (e 0) s \<bind> link (e 1) (e 2)
              }
              else if current_cell_configuration = 11 then link (e 1) (e 2) s
              else if current_cell_configuration = 12 then link (e 3) (e 1) s
              else if current_cell_configuration = 13 then link (e 0) (e 1) s
              else if current_cell_configuration = 14 then link (e 3) (e 0) s
              else Some s
            })
         else Some s)"

definition compute_adajcency ::
  "fval field2 \<Rightarrow> int field2 \<Rightarrow> int list \<Rightarrow> int list \<Rightarrow> adjacency option" where
  "compute_adajcency grid binary_grid previous_edge next_edge =
     fold_opt
       (\<lambda>x_index. fold_opt (adjacency_cell grid binary_grid x_index)
          (py_range (snd (field_shape binary_grid))))
       (py_range (fst (field_shape binary_grid)))
       (previous_edge, next_edge)"

section \<open>Geometry kernels (cglib/calc.py)\<close>

definition index2d_to_cartesians_coo :: "ivec2 \<Rightarrow> ivec2 \<Rightarrow> vec2" where
  "index2d_to_cartesians_coo grid_shape cell =
     (let cell_count_x = max (fst grid_shape) (snd grid_shape);
          x = fdiv (Fin (real_of_int (fst cell))) (Fin (real_of_int cell_count_x));
          y = fdiv (Fin (real_of_int (snd cell))) (Fin (real_of_int cell_count_x))
      in (x, y))"

definition linear_interpolation ::
  "fval field2 \<Rightarrow> ivec2 \<Rightarrow> ivec2 \<Rightarrow> fval \<Rightarrow> vec2 option" where
  "linear_interpolation grid point_0_index point_1_index val =
     (let point_0 = index2d_to_cartesians_coo (field_shape grid) point_0_index;
          point_1 = index2d_to_cartesians_coo (field_shape grid) point_1_index
      in do {
        g0 \<leftarrow> get2 grid (fst point_0_index) (snd point_0_index);
        g1 \<leftarrow> get2 grid (fst point_1_index) (snd point_1_index);
        if snd point_0_index = snd point_1_index
        then Some (fadd (fst point_0)
                     (fdiv (fmul (fsub val g0) (fsub (fst point_1) (fst point_0))) (fsub g1 g0)),
                   snd point_1)
        else Some (fst point_0,
                   fadd (snd point_0)
                     (fdiv (fmul (fsub val g0) (fsub (snd point_1) (snd point_0))) (fsub g1 g0)))
      })"

definition vsub :: "vec2 \<Rightarrow> vec2 \<Rightarrow> vec2" where
  "vsub u v = (fsub (fst u) (fst v), fsub (snd u) (snd v))"

definition euclidean_norm :: "vec2 \<Rightarrow> fval" where
  "euclidean_norm v = fsqrt (fadd (fmul (fst v) (fst v)) (fmul (snd v) (snd v)))"

text \<open>
  The patching energy of the edges \<open>(i_1, i_2)\<close> and \<open>(j_1, j_2)\<close>; the source has
  this computation twice, in \<open>compute_all_energies\<close> and in
  \<open>compute_neighbours_energies\<close>.
\<close>

definition patching_energy :: "vec2 \<Rightarrow> vec2 \<Rightarrow> vec2 \<Rightarrow> vec2 \<Rightarrow> fval" where
  "patching_energy i_1 i_2 j_1 j_2 =
     (let cross = fadd (euclidean_norm (vsub i_1 j_2)) (euclidean_norm (vsub i_2 j_1));
          no_cross = fadd (euclidean_norm (vsub i_1 j_1)) (euclidean_norm (vsub i_2 j_2))
      in if fless cross no_cross
         then fsub (fsub cross (euclidean_norm (vsub i_1 i_2))) (euclidean_norm (vsub j_2 j_1))
         else fsub (fsub no_cross (euclidean_norm (vsub i_1 i_2))) (euclidean_norm (vsub j_2 j_1)))"

text \<open>
  The energy of the reference edge \<open>edge_I\<close> with the edge \<open>index\<close>: the four reads
  of \<open>points\<close> and the read of \<open>next_edge\<close> that both energy functions perform.
\<close>

definition energy_with ::
  "vec2 list \<Rightarrow> int list \<Rightarrow> ivec2 \<Rightarrow> int \<Rightarrow> fval option" where
  "energy_with points next_edge edge_I index =
     do {
       next_J \<leftarrow> fget next_edge index;
       i_1 \<leftarrow> fget points (fst edge_I);
       i_2 \<leftarrow> fget points (snd edge_I);
       j_1 \<leftarrow> fget points index;
       j_2 \<leftarrow> fget points next_J;
       Some (patching_energy i_1 i_2 j_1 j_2)
     }"

text \<open>
  \<open>compute_all_energies\<close> is a parallel loop that writes every entry of \<open>energies\<close>
  on its own.
\<close>

definition energy_entry ::
  "vec2 list \<Rightarrow> int list \<Rightarrow> int list \<Rightarrow> ivec2 \<Rightarrow> int \<Rightarrow> int \<Rightarrow> fval option" where
  "energy_entry points next_edge cycle_index edge_I edge_cycle index =
     do {
       c \<leftarrow> fget cycle_index index;
       if c = edge_cycle then Some PInf
       else if c = - 1 then Some PInf
       else energy_with points next_edge edge_I index
     }"

fun map_opt :: "('a \<Rightarrow> 'b option) \<Rightarrow> 'a list \<Rightarrow> 'b list option" where
  "map_opt f [] = Some []"
| "map_opt f (x # xs) =
     (case f x of None \<Rightarrow> None
      | Some y \<Rightarrow> (case map_opt f xs of None \<Rightarrow> None | Some ys \<Rightarrow> Some (y # ys)))"

definition compute_all_energies ::
  "vec2 list \<Rightarrow> int list \<Rightarrow> int list \<Rightarrow> fval list \<Rightarrow> int \<Rightarrow> fval list option" where
  "compute_all_energies points next_edge cycle_index energies current_edge_1d_index =
     do {
       next_I \<leftarrow> fget next_edge current_edge_1d_index;
       edge_cycle \<leftarrow> fget cycle_index current_edge_1d_index;
       map_opt (energy_entry points next_edge cycle_index
                  (current_edge_1d_index, next_I) edge_cycle)
         (py_range (int (length energies)))
     }"

text \<open>
  The body of the three nested loops of \<open>compute_neighbours_energies\<close>; the loop
  state is \<open>(minimal_energy, minimum_value_3d_index)\<close>. The read
  \<open>cycle_index[edge_J_1d_index]\<close> comes first and is not guarded by a test of
  \<open>edge_J_1d_index\<close>.
\<close>

definition neighbour_step ::
  "vec2 list \<Rightarrow> int list \<Rightarrow> int list \<Rightarrow> ivec2 \<Rightarrow> ivec2 \<Rightarrow> int \<Rightarrow> ivec3 \<Rightarrow>
   int \<Rightarrow> int \<Rightarrow> int \<Rightarrow> fval \<times> ivec3 \<Rightarrow> (fval \<times> ivec3) option" where
  "neighbour_step points next_edge cycle_index shape edge_I edge_I_cycle edge_I_3d_index
       x_index y_index z_index st =
     (let edge_J_1d_index =
            edge_3d_to_1d_index shape (fst edge_I_3d_index + x_index - 2)
              (fst (snd edge_I_3d_index) + y_index - 2) z_index
      in do {
        c \<leftarrow> fget cycle_index edge_J_1d_index;
        if c = edge_I_cycle \<or> c = - 1 then Some st
        else do {
          energy \<leftarrow> energy_with points next_edge edge_I edge_J_1d_index;
          if fless energy (fst st) \<and> \<not> feq energy PInf
          then Some (energy, (x_index, y_index, z_index))
          else Some st
        }
      })"

text \<open>
  The result is a \<open>vec2\<close> in the source: the energy and the edge index converted to
  a floating-point number, which the caller converts back; the model keeps the index
  as the integer it is.
\<close>

definition compute_neighbours_energies ::
  "vec2 list \<Rightarrow> int list \<Rightarrow> int list \<Rightarrow> ivec2 \<Rightarrow> int \<Rightarrow> (fval \<times> int) option" where
  "compute_neighbours_energies points next_edge cycle_index shape current_edge_1d_index =
     do {
       next_I \<leftarrow> fget next_edge current_edge_1d_index;
       edge_I_cycle \<leftarrow> fget cycle_index current_edge_1d_index;
       let edge_I = (current_edge_1d_index, next_I);
       let edge_I_3d_index = edge_1d_to_3d_index shape current_edge_1d_index;
       st \<leftarrow>
         fold_opt
           (\<lambda>x_index.
              fold_opt
                (\<lambda>y_index.
                   fold_opt
                     (neighbour_step points next_edge cycle_index shape edge_I edge_I_cycle
                        edge_I_3d_index x_index y_index)
                     (py_range 2))
                (py_range 5))
           (py_range 5) (PInf, (0, 0, 0));
       let minimal_energy = fst st;
       let minimum_value_3d_index = snd st;
       let res = (fst edge_I_3d_index + fst minimum_value_3d_index - 2,
                  fst (snd edge_I_3d_index) + fst (snd minimum_value_3d_index) - 2,
                  snd (snd minimum_value_3d_index));
       Some (minimal_energy,
             edge_3d_to_1d_index shape (fst res) (fst (snd res)) (snd (snd res)))
     }"

section \<open>Field helpers (cglib/fields.py)\<close>

definition reset_energies :: "fval list \<Rightarrow> fval list" where
  "reset_energies energies = map (\<lambda>_. PInf) energies"

definition find_minimum_in_field :: "fval list \<Rightarrow> fval \<times> int" where
  "find_minimum_in_field f =
     fold (\<lambda>i st. if fless (f ! nat i) (fst st) \<and> \<not> feq (f ! nat i) PInf
                   then (f ! nat i, i) else st)
       (py_range (int (length f))) (PInf, 0)"

definition count_cycles :: "ivec2 list \<Rightarrow> int" where
  "count_cycles cycles = int (length (filter (\<lambda>c. snd c \<noteq> 0) cycles))"

definition fill_final_cycles :: "ivec2 list \<Rightarrow> ivec2 list \<Rightarrow> ivec2 list option" where
  "fill_final_cycles cycles final_cycles =
     map_opt (\<lambda>index. fget cycles index) (py_range (int (length final_cycles)))"

section \<open>Point computation and cycle discovery (cglib/graph.py)\<close>

text \<open>
  \<open>compute_points\<close> is a parallel loop over the cells; every cell writes the slots
  of its own right and bottom edge only, so the cells are run in row-major order here.
\<close>

definition points_cell ::
  "fval field2 \<Rightarrow> int field2 \<Rightarrow> int \<Rightarrow> int \<Rightarrow> vec2 list \<Rightarrow> vec2 list option" where
  "points_cell grid binary_grid x_index y_index points =
     (let grid_shape = field_shape grid
      in if x_index \<noteq> fst grid_shape - 1 \<and> y_index \<noteq> snd grid_shape - 1
         then
           (let edge_indexes = index2d_to_edge_index (x_index, y_index) grid_shape
            in do {
              b01 \<leftarrow> get2 binary_grid x_index (y_index + 1);
              b11 \<leftarrow> get2 binary_grid (x_index + 1) (y_index + 1);
              points1 \<leftarrow>
                (if b01 \<noteq> b11
                 then do {
                   right_edge_point \<leftarrow>
                     linear_interpolation grid (x_index, y_index + 1)
                       (x_index + 1, y_index + 1) (Fin 0);
                   fset points (vec4_at edge_indexes 1) right_edge_point
                 }
                 else Some points);
              b10 \<leftarrow> get2 binary_grid (x_index + 1) y_index;
              if b11 \<noteq> b10
              then do {
                bottom_edge_point \<leftarrow>
                  linear_interpolation grid (x_index + 1, y_index + 1)
                    (x_index + 1, y_index) (Fin 0);
                fset points1 (vec4_at edge_indexes 2) bottom_edge_point
              }
              else Some points1
            })
         else Some points)"

definition compute_points ::
  "fval field2 \<Rightarrow> int field2 \<Rightarrow> vec2 list \<Rightarrow> vec2 list option" where
  "compute_points grid binary_grid points =
     fold_opt
       (\<lambda>x_index. fold_opt (points_cell grid binary_grid x_index)
          (py_range (snd (field_shape binary_grid))))
       (py_range (fst (field_shape binary_grid)))
       points"

definition is_in_a_cycle :: "int list \<Rightarrow> ivec2 \<Rightarrow> ivec2 \<Rightarrow> bool option" where
  "is_in_a_cycle cycle_index grid_shape cell =
     (let edge_indexes = index2d_to_edge_index cell grid_shape
      in fold_opt
           (\<lambda>i res. do {
              c \<leftarrow> fget cycle_index (vec4_at edge_indexes i);
              Some (if c \<noteq> - 1 then True else res)
            })
           (py_range 4) False)"

text \<open>
  Loops that may run forever are partial functions: the result \<open>None\<close> means that
  the loop does not terminate, \<open>Some None\<close> that it stops at an out-of-bounds access,
  and \<open>Some (Some s)\<close> that it ends in the state \<open>s\<close>.
\<close>

partial_function (option) flood_loop ::
  "int list \<Rightarrow> int \<Rightarrow> int \<Rightarrow> int list \<Rightarrow> int \<Rightarrow> int \<Rightarrow> (int list \<times> int) option option" where
  "flood_loop next_edge first_edge cycle_number cycle_index current_edge cycle_lenght =
     (if current_edge \<noteq> first_edge
      then (case fset cycle_index current_edge cycle_number of
              None \<Rightarrow> Some None
            | Some cycle_index' \<Rightarrow>
                (case fget next_edge current_edge of
                   None \<Rightarrow> Some None
                 | Some key \<Rightarrow>
                     flood_loop next_edge first_edge cycle_number cycle_index' key
                       (cycle_lenght + 1)))
      else Some (Some (cycle_index, cycle_lenght)))"

definition flood ::
  "int list \<Rightarrow> int list \<Rightarrow> ivec2 list \<Rightarrow> int \<Rightarrow> int \<Rightarrow> (int list \<times> ivec2 list) option option" where
  "flood next_edge cycle_index cycles first_edge cycle_number =
     (case fget next_edge first_edge of
        None \<Rightarrow> Some None
      | Some current_edge \<Rightarrow>
          (case fset cycle_index first_edge cycle_number of
             None \<Rightarrow> Some None
           | Some cycle_index1 \<Rightarrow>
               (case flood_loop next_edge first_edge cycle_number cycle_index1 current_edge 1 of
                  None \<Rightarrow> None
                | Some None \<Rightarrow> Some None
                | Some (Some (cycle_index2, cycle_lenght)) \<Rightarrow>
                    (case fset cycles cycle_number (first_edge, cycle_lenght) of
                       None \<Rightarrow> Some None
                     | Some cycles' \<Rightarrow> Some (Some (cycle_index2, cycles'))))))"

fun fold_loop ::
  "('a \<Rightarrow> 's \<Rightarrow> 's option option) \<Rightarrow> 'a list \<Rightarrow> 's \<Rightarrow> 's option option" where
  "fold_loop f [] s = Some (Some s)"
| "fold_loop f (x # xs) s =
     (case f x s of
        None \<Rightarrow> None
      | Some None \<Rightarrow> Some None
      | Some (Some s') \<Rightarrow> fold_loop f xs s')"

text \<open>
  The body of the loops of \<open>browse_grid\<close>; the loop state is
  \<open>(cycle_index, cycles, cycle_number)\<close>. The cell configuration is computed before
  the test for the last row and column. The conjunction is evaluated from left to
  right and stops at the first false operand.
\<close>

definition browse_cell ::
  "fval field2 \<Rightarrow> int field2 \<Rightarrow> int list \<Rightarrow> int \<Rightarrow> int \<Rightarrow>
   int list \<times> ivec2 list \<times> int \<Rightarrow> (int list \<times> ivec2 list \<times> int) option option" where
  "browse_cell grid binary_grid next_edge x_index y_index st =
     (let grid_shape = field_shape grid;
          cycle_index = fst st;
          cycles = fst (snd st);
          cycle_number = snd (snd st);
          current_cell = (x_index, y_index)
      in case cell_configuration binary_grid current_cell of
           None \<Rightarrow> Some None
         | Some current_cell_configuration \<Rightarrow>
             if x_index \<noteq> fst grid_shape - 1 \<and> y_index \<noteq> snd grid_shape - 1 \<and>
                current_cell_configuration > 0 \<and> current_cell_configuration < 15 \<and>
                current_cell_configuration \<noteq> 5 \<and> current_cell_configuration \<noteq> 10
             then (case is_in_a_cycle cycle_index grid_shape current_cell of
                     None \<Rightarrow> Some None
                   | Some in_cycle \<Rightarrow>
                       if in_cycle = False
                       then
                         (let edge_indexes =
                                index2d_to_edge_index (x_index, y_index) (field_shape binary_grid);
                              first_edge =
                                (if current_cell_configuration = 1 \<or>
                                    current_cell_configuration = 2 \<or>
                                    current_cell_configuration = 6 \<or>
                                    current_cell_configuration = 14 \<or>
                                    current_cell_configuration = 13 \<or>
                                    current_cell_configuration = 9
                                 then vec4_at edge_indexes 0
                                 else if current_cell_configuration = 3 \<or>
                                         current_cell_configuration = 4 \<or>
                                         current_cell_configuration = 12 \<or>
                                         current_cell_configuration = 11
                                 then vec4_at edge_indexes 1
                                 else vec4_at edge_indexes 2)
                          in case flood next_edge cycle_index cycles first_edge cycle_number of
                               None \<Rightarrow> None
                             | Some None \<Rightarrow> Some None
                             | Some (Some (cycle_index', cycles')) \<Rightarrow>
                                 Some (Some (cycle_index', cycles', cycle_number + 1)))
                       else Some (Some st))
             else Some (Some st))"

definition browse_grid ::
  "fval field2 \<Rightarrow> int field2 \<Rightarrow> int list \<Rightarrow> int list \<Rightarrow> ivec2 list \<Rightarrow>
   (int list \<times> ivec2 list) option option" where
  "browse_grid grid binary_grid next_edge cycle_index cycles =
     (case fold_loop
             (\<lambda>x_index. fold_loop (browse_cell grid binary_grid next_edge x_index)
                (py_range (snd (field_shape binary_grid))))
             (py_range (fst (field_shape binary_grid)))
             (cycle_index, cycles, 0) of
        None \<Rightarrow> None
      | Some None \<Rightarrow> Some None
      | Some (Some st) \<Rightarrow> Some (Some (fst st, fst (snd st))))"

section \<open>Stitching (cglib/stitch.py)\<close>

text \<open>The graph state that the stitching engine mutates.\<close>

record graph =
  g_previous :: "int list"
  g_next :: "int list"
  g_index :: "int list"
  g_cycles :: "ivec2 list"

partial_function (option) relabel_loop ::
  "int list \<Rightarrow> int \<Rightarrow> int \<Rightarrow> int list \<Rightarrow> int \<Rightarrow> int list option option" where
  "relabel_loop next_edge start cycle_1_index cycle_index point =
     (if point \<noteq> start
      then (case fset cycle_index point cycle_1_index of
              None \<Rightarrow> Some None
            | Some cycle_index' \<Rightarrow>
                (case fget next_edge point of
                   None \<Rightarrow> Some None
                 | Some next_point \<Rightarrow>
                     relabel_loop next_edge start cycle_1_index cycle_index' next_point))
      else Some (Some cycle_index))"

text \<open>The four pointer writes of \<open>stitch_two_cycles\<close>, on the adjacency arrays.\<close>

definition splice :: "int list \<Rightarrow> int list \<Rightarrow> ivec2 \<Rightarrow> adjacency option" where
  "splice previous_edge next_edge minimal_energy_edges =
     do {
       I2 \<leftarrow> fget next_edge (fst minimal_energy_edges);
       J2 \<leftarrow> fget next_edge (snd minimal_energy_edges);
       let edge_I = (fst minimal_energy_edges, I2);
       let edge_J = (snd minimal_energy_edges, J2);
       next_edge1 \<leftarrow> fset next_edge (fst edge_I) (snd edge_J);
       previous_edge1 \<leftarrow> fset previous_edge (snd edge_I) (fst edge_J);
       next_edge2 \<leftarrow> fset next_edge1 (fst edge_J) (snd edge_I);
       previous_edge2 \<leftarrow> fset previous_edge1 (snd edge_J) (fst edge_I);
       Some (previous_edge2, next_edge2)
     }"

definition merge_cycles :: "ivec2 list \<Rightarrow> int \<Rightarrow> int \<Rightarrow> ivec2 list option" where
  "merge_cycles cycles cycle_1_index cycle_2_index =
     do {
       c1 \<leftarrow> fget cycles cycle_1_index;
       c2 \<leftarrow> fget cycles cycle_2_index;
       let new_cycle = (fst c1, snd c1 + snd c2);
       cycles1 \<leftarrow> fset cycles cycle_1_index new_cycle;
       fset cycles1 cycle_2_index (0, 0)
     }"

definition stitch_two_cycles :: "graph \<Rightarrow> ivec2 \<Rightarrow> graph option option" where
  "stitch_two_cycles g minimal_energy_edges =
     (case do {
             cycle_1_index \<leftarrow> fget (g_index g) (fst minimal_energy_edges);
             cycle_2_index \<leftarrow> fget (g_index g) (snd minimal_energy_edges);
             adj \<leftarrow> splice (g_previous g) (g_next g) minimal_energy_edges;
             point \<leftarrow> fget (snd adj) (fst minimal_energy_edges);
             Some (cycle_1_index, cycle_2_index, adj, point)
           } of
        None \<Rightarrow> Some None
      | Some (cycle_1_index, cycle_2_index, adj, point) \<Rightarrow>
          (case relabel_loop (snd adj) (fst minimal_energy_edges) cycle_1_index
                  (g_index g) point of
             None \<Rightarrow> None
           | Some None \<Rightarrow> Some None
           | Some (Some cycle_index') \<Rightarrow>
               (case merge_cycles (g_cycles g) cycle_1_index cycle_2_index of
                  None \<Rightarrow> Some None
                | Some cycles' \<Rightarrow>
                    Some (Some \<lparr>g_previous = fst adj, g_next = snd adj,
                                 g_index = cycle_index', g_cycles = cycles'\<rparr>))))"

text \<open>
  \<open>minimal_cycle_lenght\<close> starts as \<open>ti.math.inf\<close>, so it is a floating-point
  variable; the loop state is \<open>(minimal_cycle_index, minimal_cycle_lenght)\<close>.
\<close>

definition find_minimal_cycle :: "ivec2 list \<Rightarrow> int \<Rightarrow> int option" where
  "find_minimal_cycle cycles nb_cycles =
     map_option fst
       (fold_opt
          (\<lambda>cycle_number st. do {
             cycle \<leftarrow> fget cycles cycle_number;
             let cycle_lenght = snd cycle;
             Some (if fless (Fin (real_of_int cycle_lenght)) (snd st) \<and> cycle_lenght \<noteq> 0
                   then (cycle_number, Fin (real_of_int cycle_lenght))
                   else st)
           })
          (py_range nb_cycles) (0, PInf))"

text \<open>
  The two loops of \<open>find_edges_with_minimum_energy_with_neighbours\<close>; their state is
  \<open>(current_edge_1d_index, minimal_energy, minimal_energy_edges)\<close>. The second loop
  continues from the edge at which the first one stopped.
\<close>

definition neighbours_search_step ::
  "vec2 list \<Rightarrow> int list \<Rightarrow> int list \<Rightarrow> ivec2 \<Rightarrow> int \<times> fval \<times> ivec2 \<Rightarrow>
   (int \<times> fval \<times> ivec2) option" where
  "neighbours_search_step points next_edge cycle_index shape st =
     (let current_edge_1d_index = fst st;
          minimal_energy = fst (snd st);
          minimal_energy_edges = snd (snd st)
      in do {
        min_and_index \<leftarrow>
          compute_neighbours_energies points next_edge cycle_index shape current_edge_1d_index;
        end_point_index \<leftarrow> fget next_edge current_edge_1d_index;
        Some (if fless (fst min_and_index) minimal_energy \<and> \<not> feq (fst min_and_index) PInf
              then (end_point_index, fst min_and_index,
                    (current_edge_1d_index, snd min_and_index))
              else (end_point_index, minimal_energy, minimal_energy_edges))
      })"

definition full_search_step ::
  "vec2 list \<Rightarrow> int list \<Rightarrow> int list \<Rightarrow> fval list \<Rightarrow> int \<times> fval \<times> ivec2 \<Rightarrow>
   (int \<times> fval \<times> ivec2) option" where
  "full_search_step points next_edge cycle_index energies st =
     (let current_edge_1d_index = fst st;
          minimal_energy = fst (snd st);
          minimal_energy_edges = snd (snd st)
      in do {
        energies' \<leftarrow>
          compute_all_energies points next_edge cycle_index (reset_energies energies)
            current_edge_1d_index;
        let min_and_index = find_minimum_in_field energies';
        end_point_index \<leftarrow> fget next_edge current_edge_1d_index;
        Some (if fless (fst min_and_index) minimal_energy
              then (end_point_index, fst min_and_index,
                    (current_edge_1d_index, snd min_and_index))
              else (end_point_index, minimal_energy, minimal_energy_edges))
      })"

definition find_edges_with_minimum_energy_with_neighbours ::
  "vec2 list \<Rightarrow> int list \<Rightarrow> int list \<Rightarrow> ivec2 list \<Rightarrow> fval list \<Rightarrow> int \<Rightarrow> ivec2 \<Rightarrow>
   ivec2 option" where
  "find_edges_with_minimum_energy_with_neighbours points next_edge cycle_index cycles
       energies minimal_cycle_index shape =
     do {
       minimal_cycle \<leftarrow> fget cycles minimal_cycle_index;
       st1 \<leftarrow>
         fold_opt (\<lambda>_. neighbours_search_step points next_edge cycle_index shape)
           (py_range (snd minimal_cycle)) (fst minimal_cycle, PInf, (0, 0));
       if feq (fst (snd st1)) PInf
       then do {
         st2 \<leftarrow>
           fold_opt (\<lambda>_. full_search_step points next_edge cycle_index energies)
             (py_range (snd minimal_cycle)) st1;
         Some (snd (snd st2))
       }
       else Some (snd (snd st1))
     }"

text \<open>One iteration of the loop of \<open>compiled_stitching_algorithm_with_neighbours\<close>.\<close>

definition stitch_iteration ::
  "vec2 list \<Rightarrow> fval list \<Rightarrow> ivec2 \<Rightarrow> graph \<Rightarrow> graph option option" where
  "stitch_iteration points energies shape g =
     (let nb_cycles = int (length (g_cycles g))
      in case do {
               minimal_cycle_index \<leftarrow> find_minimal_cycle (g_cycles g) nb_cycles;
               find_edges_with_minimum_energy_with_neighbours points (g_next g)
                 (g_index g) (g_cycles g) energies minimal_cycle_index shape
             } of
           None \<Rightarrow> Some None
         | Some minimal_energy_edges \<Rightarrow> stitch_two_cycles g minimal_energy_edges)"

definition compiled_stitching_algorithm_with_neighbours ::
  "vec2 list \<Rightarrow> fval list \<Rightarrow> ivec2 \<Rightarrow> graph \<Rightarrow> graph option option" where
  "compiled_stitching_algorithm_with_neighbours points energies shape g =
     (let nb_cycles = int (length (g_cycles g))
      in fold_loop (\<lambda>_. stitch_iteration points energies shape)
           (py_range (nb_cycles - 1)) g)"

section \<open>Reference notions of the specification\<close>




definition corner_offset :: "int \<Rightarrow> int \<times> int" where
  "corner_offset k =
     (if k = 0 then (0, 0) else if k = 1 then (0, 1) else if k = 2 then (1, 1) else (1, 0))"





section \<open>Notions used in the proofs about the adjacency arrays\<close>

text \<open>
  The pairing of the two adjacency arrays (invariant I1/P1 of the spec, in both
  directions): wherever \<open>next_edge\<close> is set, \<open>previous_edge\<close> leads back, and
  wherever \<open>previous_edge\<close> is set, \<open>next_edge\<close> leads back.
\<close>

definition paired :: "int list \<Rightarrow> int list \<Rightarrow> bool" where
  "paired previous_edge next_edge =
     (length previous_edge = length next_edge \<and>
      list_all (\<lambda>i. next_edge ! i \<noteq> - 1 \<longrightarrow>
                     fget previous_edge (next_edge ! i) = Some (int i))
        [0..<length next_edge] \<and>
      list_all (\<lambda>i. previous_edge ! i \<noteq> - 1 \<longrightarrow>
                     fget next_edge (previous_edge ! i) = Some (int i))
        [0..<length previous_edge])"

text \<open>
  The links that \<open>adjacency_cell\<close> writes for a configuration, as pairs of slots
  (see \<open>adjacency_cell_arcs\<close>).
\<close>

definition cell_arc_slots :: "int \<Rightarrow> fval \<Rightarrow> (int \<times> int) list" where
  "cell_arc_slots c avg =
     (if c = 1 then [(0, 3)] else if c = 2 then [(1, 0)] else if c = 3 then [(1, 3)]
      else if c = 4 then [(2, 1)]
      else if c = 5 then (if fless (Fin 0) avg then [(0, 1), (2, 3)] else [(0, 3), (2, 1)])
      else if c = 6 then [(2, 0)] else if c = 7 then [(2, 3)] else if c = 8 then [(3, 2)]
      else if c = 9 then [(0, 2)]
      else if c = 10 then (if fless avg (Fin 0) then [(1, 0), (3, 2)] else [(3, 0), (1, 2)])
      else if c = 11 then [(1, 2)] else if c = 12 then [(3, 1)] else if c = 13 then [(0, 1)]
      else if c = 14 then [(3, 0)] else [])"

text \<open>
  The invariant of the loops of \<open>compute_adajcency\<close>: the arrays hold exactly the
  links of a set \<open>R\<close> of arcs, and \<open>R\<close> stays inside a set \<open>U\<close> of arcs that is
  the graph of an injective partial function on the edge indices.
\<close>

definition adj_inv :: "nat \<Rightarrow> (int \<times> int) set \<Rightarrow> adjacency \<Rightarrow> bool" where
  "adj_inv N R s =
     (length (fst s) = N \<and> length (snd s) = N \<and>
      (\<forall>i<N. snd s ! i \<noteq> - 1 \<longrightarrow> (int i, snd s ! i) \<in> R) \<and>
      (\<forall>i<N. fst s ! i \<noteq> - 1 \<longrightarrow> (fst s ! i, int i) \<in> R) \<and>
      (\<forall>(a, b)\<in>R. 0 \<le> a \<and> a < int N \<and> 0 \<le> b \<and> b < int N \<and>
                    snd s ! nat a = b \<and> fst s ! nat b = a))"

definition arc_universe :: "nat \<Rightarrow> (int \<times> int) set \<Rightarrow> bool" where
  "arc_universe N U =
     ((\<forall>(a, b)\<in>U. 0 \<le> a \<and> a < int N \<and> 0 \<le> b \<and> b < int N) \<and>
      (\<forall>a b b'. (a, b) \<in> U \<and> (a, b') \<in> U \<longrightarrow> b = b') \<and>
      (\<forall>a a' b. (a, b) \<in> U \<and> (a', b) \<in> U \<longrightarrow> a = a'))"

definition adj_good :: "nat \<Rightarrow> (int \<times> int) set \<Rightarrow> adjacency \<Rightarrow> bool" where
  "adj_good N U s = (\<exists>R. R \<subseteq> U \<and> adj_inv N R s)"

text \<open>
  \<open>flat_index\<close> and \<open>flat_coord\<close> are the two conversions between 3D and flat
  edge indices over the mathematical integers, without the 32-bit wrap-around.
  The edge of slot \<open>s\<close> of a cell, the interior cells (those the loops do not skip),
  the two samples an edge slot joins (the contour arcs leave a cell through an edge
  whose first sample is positive and whose second is negative), the 3D index of a
  slot, and the binary value, configuration and corner average of the grid itself.
\<close>

definition flat_index :: "ivec2 \<Rightarrow> ivec3 \<Rightarrow> int" where
  "flat_index sh c =
     (if snd (snd c) = 0 then fst c * snd sh + fst (snd c)
      else snd sh * (fst sh + 1) + fst c * (snd sh + 1) + fst (snd c))"

definition flat_coord :: "ivec2 \<Rightarrow> int \<Rightarrow> ivec3" where
  "flat_coord sh e =
     (if e < snd sh * (fst sh + 1) then (e div snd sh, e mod snd sh, 0)
      else ((e - snd sh * (fst sh + 1)) div (snd sh + 1),
            (e - snd sh * (fst sh + 1)) mod (snd sh + 1), 1))"

definition edge_of :: "ivec2 \<Rightarrow> ivec2 \<Rightarrow> int \<Rightarrow> int" where
  "edge_of sh q s = vec4_at (index2d_to_edge_index q sh) s"

definition interior :: "ivec2 \<Rightarrow> ivec2 \<Rightarrow> bool" where
  "interior sh q = (0 \<le> fst q \<and> fst q < fst sh - 1 \<and> 0 \<le> snd q \<and> snd q < snd sh - 1)"

definition slot_from :: "ivec2 \<Rightarrow> int \<Rightarrow> ivec2" where
  "slot_from q s = (fst q + fst (corner_offset s), snd q + snd (corner_offset s))"

definition slot_to :: "ivec2 \<Rightarrow> int \<Rightarrow> ivec2" where
  "slot_to q s = slot_from q ((s + 1) mod 4)"

definition slot_coord :: "ivec2 \<Rightarrow> int \<Rightarrow> ivec3" where
  "slot_coord q s =
     (if s = 0 then (fst q, snd q, 0)
      else if s = 1 then (fst q, snd q + 1, 1)
      else if s = 2 then (fst q + 1, snd q, 0)
      else (fst q, snd q, 1))"

definition sample_bit :: "fval field2 \<Rightarrow> ivec2 \<Rightarrow> int" where
  "sample_bit grid v = binary_value (at2 grid (fst v) (snd v))"

definition sample_conf :: "fval field2 \<Rightarrow> ivec2 \<Rightarrow> int" where
  "sample_conf grid q =
     1 * sample_bit grid (fst q, snd q) + 2 * sample_bit grid (fst q, snd q + 1) +
     4 * sample_bit grid (fst q + 1, snd q + 1) + 8 * sample_bit grid (fst q + 1, snd q)"

definition sample_avg :: "fval field2 \<Rightarrow> ivec2 \<Rightarrow> fval" where
  "sample_avg grid q =
     fdiv (fadd (fadd (fadd (at2 grid (fst q) (snd q)) (at2 grid (fst q) (snd q + 1)))
                  (at2 grid (fst q + 1) (snd q + 1))) (at2 grid (fst q + 1) (snd q))) (Fin 4)"

text \<open>All links that \<open>compute_adajcency\<close> writes on a grid.\<close>

definition grid_arcs :: "fval field2 \<Rightarrow> ivec2 \<Rightarrow> (int \<times> int) set" where
  "grid_arcs grid sh =
     {(a, b). \<exists>q sa sb. interior sh q \<and>
        (sa, sb) \<in> set (cell_arc_slots (sample_conf grid q) (sample_avg grid q)) \<and>
        a = edge_of sh q sa \<and> b = edge_of sh q sb}"

text \<open>
  An example state: the graph of the 5 x 3 grid that is positive everywhere but at
  the samples (1, 1) and (3, 1), with its two cycles of four edges, and the same
  graph after the cycles are stitched at the edges 19 and 27.
\<close>

definition two_diamonds_graph :: graph where
  "two_diamonds_graph =
     \<lparr>g_previous =
        [- 1, - 1, - 1, 19, 23, - 1, - 1, - 1, - 1, 27, 31, - 1, - 1, - 1, - 1, - 1, - 1, - 1, - 1,
         4, - 1, - 1, - 1, 3, - 1, - 1, - 1, 10, - 1, - 1, - 1, 9, - 1, - 1, - 1, - 1, - 1],
      g_next =
        [- 1, - 1, - 1, 23, 19, - 1, - 1, - 1, - 1, 31, 27, - 1, - 1, - 1, - 1, - 1, - 1, - 1, - 1,
         3, - 1, - 1, - 1, 4, - 1, - 1, - 1, 9, - 1, - 1, - 1, 10, - 1, - 1, - 1, - 1, - 1],
      g_index =
        [- 1, - 1, - 1, 0, 0, - 1, - 1, - 1, - 1, 1, 1, - 1, - 1, - 1, - 1, - 1, - 1, - 1, - 1,
         0, - 1, - 1, - 1, 0, - 1, - 1, - 1, 1, - 1, - 1, - 1, 1, - 1, - 1, - 1, - 1, - 1],
      g_cycles = [(19, 4), (27, 4)]\<rparr>"

definition two_diamonds_stitched :: graph where
  "two_diamonds_stitched =
     \<lparr>g_previous =
        [- 1, - 1, - 1, 27, 23, - 1, - 1, - 1, - 1, 19, 31, - 1, - 1, - 1, - 1, - 1, - 1, - 1, - 1,
         4, - 1, - 1, - 1, 3, - 1, - 1, - 1, 10, - 1, - 1, - 1, 9, - 1, - 1, - 1, - 1, - 1],
      g_next =
        [- 1, - 1, - 1, 23, 19, - 1, - 1, - 1, - 1, 31, 27, - 1, - 1, - 1, - 1, - 1, - 1, - 1, - 1,
         9, - 1, - 1, - 1, 4, - 1, - 1, - 1, 3, - 1, - 1, - 1, 10, - 1, - 1, - 1, - 1, - 1],
      g_index =
        [- 1, - 1, - 1, 0, 0, - 1, - 1, - 1, - 1, 0, 0, - 1, - 1, - 1, - 1, - 1, - 1, - 1, - 1,
         0, - 1, - 1, - 1, 0, - 1, - 1, - 1, 0, - 1, - 1, - 1, 0, - 1, - 1, - 1, - 1, - 1],
      g_cycles = [(19, 8), (0, 0)]\<rparr>"

section \<open>Notions used in the proofs about the search\<close>

text \<open>
  Every search loop of the engine keeps a running minimum and replaces it only by a
  candidate that is strictly lower and not \<open>inf\<close>: \<open>keep_min\<close> is this update on
  pairs (cost, key). \<open>first_best cs r\<close> says that \<open>r\<close> is the first entry of the
  scanned list \<open>cs\<close> whose cost is lowest: its cost is finite, no entry has a
  strictly lower cost, and no earlier entry has a cost lower or equal.
\<close>

definition keep_min :: "fval \<times> 'k \<Rightarrow> fval \<times> 'k \<Rightarrow> fval \<times> 'k" where
  "keep_min c st = (if fless (fst c) (fst st) \<and> \<not> feq (fst c) PInf then c else st)"













section \<open>Properties of the edge indexing\<close>

lemma horizontal_index_bound:
  fixes x y W H :: int
  assumes "0 \<le> x" "x \<le> W" "0 \<le> y" "y < H"
  shows "x * H + y < H * (W + 1)"
proof -
  have "x * H \<le> W * H" using assms by (intro mult_right_mono) auto
  moreover have "H * (W + 1) = W * H + H" by (simp add: algebra_simps)
  ultimately show ?thesis using assms by linarith
qed

lemma div_mod_stride:
  fixes x y n :: int
  assumes "0 \<le> y" "y < n"
  shows "(x * n + y) div n = x" "(x * n + y) mod n = y"
  using assms by (simp_all add: div_pos_pos_trivial)

lemma flat_roundtrip:
  assumes "edge_in_range (W, H) x y z"
  shows "flat_coord (W, H) (flat_index (W, H) (x, y, z)) = (x, y, z)"
proof -
  consider (hor) "z = 0" "0 \<le> x" "x \<le> W" "0 \<le> y" "y < H"
    | (ver) "z = 1" "0 \<le> x" "x < W" "0 \<le> y" "y \<le> H"
    using assms unfolding edge_in_range_def by auto
  then show ?thesis
  proof cases
    case hor
    have lt: "x * H + y < H * (W + 1)"
      using hor by (intro horizontal_index_bound) auto
    show ?thesis
      using hor lt div_mod_stride [of y H x]
      by (simp add: flat_coord_def flat_index_def)
  next
    case ver
    have ge: "\<not> H * (W + 1) + x * (H + 1) + y < H * (W + 1)"
    proof -
      have "0 \<le> x * (H + 1)" using ver by (intro mult_nonneg_nonneg) auto
      then show ?thesis using ver by linarith
    qed
    have "(x * (H + 1) + y) div (H + 1) = x" "(x * (H + 1) + y) mod (H + 1) = y"
      using ver div_mod_stride [of y "H + 1" x] by auto
    then show ?thesis
      using ver ge by (simp add: flat_coord_def flat_index_def)
  qed
qed





text \<open>
  C7 (as stated). The claim is for every grid. The kernels compute with 32-bit
  integers: on the 70000 x 70000 grid the in-range triple \<open>(40000, 0, 0)\<close> has the
  flat index 2800000000, which wraps to \<open>-1494967296\<close>, and the way back from there
  gives another triple.
\<close>

theorem edge_roundtrip_wrap_counterexample:
  "edge_in_range (70000, 70000) 40000 0 0 \<and>
   edge_3d_to_1d_index (70000, 70000) 40000 0 0 = - 1494967296 \<and>
   edge_1d_to_3d_index (70000, 70000) (edge_3d_to_1d_index (70000, 70000) 40000 0 0)
     \<noteq> (40000, 0, 0)"
  by (simp add: edge_in_range_def edge_3d_to_1d_index_def edge_1d_to_3d_index_def i32_def)







section \<open>Properties of the contour extraction\<close>

lemma binary_value_eq: "binary_value v = (if fless v (Fin 0) then 0 else 1)"
  by (cases v) (auto simp: binary_value_def sign_def)

text \<open>
  C9. Binarization treats every sample on its own: the binary value is 0 when the
  sample is below zero and 1 otherwise; in particular it is 1 at zero and at NaN.
\<close>

theorem compute_binary_grid_pointwise:
  assumes "field_shape binary_grid = field_shape grid" "in_shape (field_shape grid) x y"
  shows "get2 (compute_binary_grid grid binary_grid) x y =
           Some (if fless (at2 grid x y) (Fin 0) then 0 else 1) \<and>
         (at2 grid x y = NaN \<longrightarrow> get2 (compute_binary_grid grid binary_grid) x y = Some 1) \<and>
         (at2 grid x y = Fin 0 \<longrightarrow> get2 (compute_binary_grid grid binary_grid) x y = Some 1)"
  using assms
  by (auto simp: get2_def compute_binary_grid_def binary_value_eq)

theorem compute_binary_grid_pointwise_witness:
  "get2 (compute_binary_grid
           \<lparr>field_shape = (2, 2), at2 = (\<lambda>x y. if x = 0 then (if y = 0 then NaN else Fin (- 1))
                                         else (if y = 0 then Fin 0 else Fin 3))\<rparr>
           \<lparr>field_shape = (2, 2), at2 = (\<lambda>x y. 0)\<rparr>) 0 0 = Some 1 \<and>
   get2 (compute_binary_grid
           \<lparr>field_shape = (2, 2), at2 = (\<lambda>x y. if x = 0 then (if y = 0 then NaN else Fin (- 1))
                                         else (if y = 0 then Fin 0 else Fin 3))\<rparr>
           \<lparr>field_shape = (2, 2), at2 = (\<lambda>x y. 0)\<rparr>) 0 1 = Some 0"
  using
    compute_binary_grid_pointwise [of "\<lparr>field_shape = (2, 2), at2 = (\<lambda>x y. 0)\<rparr>"
      "\<lparr>field_shape = (2, 2), at2 = (\<lambda>x y. if x = 0 then (if y = 0 then NaN else Fin (- 1))
                                         else (if y = 0 then Fin 0 else Fin 3))\<rparr>" 0 0]
    compute_binary_grid_pointwise [of "\<lparr>field_shape = (2, 2), at2 = (\<lambda>x y. 0)\<rparr>"
      "\<lparr>field_shape = (2, 2), at2 = (\<lambda>x y. if x = 0 then (if y = 0 then NaN else Fin (- 1))
                                         else (if y = 0 then Fin 0 else Fin 3))\<rparr>" 0 1]
  by (simp add: in_shape_def)

lemma edge_index_components:
  "index2d_to_edge_index (x, y) (W, H) =
     (H * x + y, H * W + H + (H * x + x) + y + 1, H * x + H + y, H * W + H + (H * x + x) + y)"
  by (simp add: index2d_to_edge_index_def Let_def algebra_simps)

lemma edge_fields_shape_eq: "edge_fields_shape (W, H) = 2 * (H * W) + W + H - 1"
  by (simp add: edge_fields_shape_def algebra_simps)

lemma edge_indexes_in_range:
  fixes x y W H :: int
  assumes "0 \<le> x" "x < W - 1" "0 \<le> y" "y < H - 1"
  shows "0 \<le> vec4_at (index2d_to_edge_index (x, y) (W, H)) k \<and>
         vec4_at (index2d_to_edge_index (x, y) (W, H)) k < edge_fields_shape (W, H)"
proof -
  have "H * x \<le> H * (W - 2)" using assms by (intro mult_left_mono) auto
  then have a: "H * x \<le> H * W - 2 * H" by (simp add: algebra_simps)
  have b: "0 \<le> H * x" using assms by (intro mult_nonneg_nonneg) auto
  have c: "0 \<le> H * W" using assms by (intro mult_nonneg_nonneg) auto
  have t0: "0 \<le> H * x + y \<and> H * x + y < 2 * (H * W) + W + H - 1"
    using assms a b c by linarith
  have t1: "0 \<le> H * W + H + (H * x + x) + y + 1 \<and>
            H * W + H + (H * x + x) + y + 1 < 2 * (H * W) + W + H - 1"
    using assms a b c by linarith
  have t2: "0 \<le> H * x + H + y \<and> H * x + H + y < 2 * (H * W) + W + H - 1"
    using assms a b c by linarith
  have t3: "0 \<le> H * W + H + (H * x + x) + y \<and>
            H * W + H + (H * x + x) + y < 2 * (H * W) + W + H - 1"
    using assms a b c by linarith
  show ?thesis
    unfolding edge_index_components edge_fields_shape_eq vec4_at.simps
    using t0 t1 t2 t3 by (simp split: if_split)
qed



lemma binary_value_cases: "binary_value v = 0 \<or> binary_value v = 1"
  by (simp add: binary_value_eq)





lemma adjacency_cell_unfold:
  assumes "field_shape binary_grid = (W, H)" "x \<noteq> W - 1" "y \<noteq> H - 1"
    "cell_configuration binary_grid (x, y) = Some c"
  shows "adjacency_cell grid binary_grid x y s =
    (let e = vec4_at (index2d_to_edge_index (x, y) (W, H)) in
              if c = 0 \<or> c = 15
              then fold_opt (\<lambda>i. unlink (e i)) [0, 1, 2, 3] s
              else if c = 1 then link (e 0) (e 3) s
              else if c = 2 then link (e 1) (e 0) s
              else if c = 3 then link (e 1) (e 3) s
              else if c = 4 then link (e 2) (e 1) s
              else if c = 5
              then do {
                average_value \<leftarrow> average_value grid (x, y);
                if fless (Fin 0) average_value
                then link (e 0) (e 1) s \<bind> link (e 2) (e 3)
                else link (e 0) (e 3) s \<bind> link (e 2) (e 1)
              }
              else if c = 6 then link (e 2) (e 0) s
              else if c = 7 then link (e 2) (e 3) s
              else if c = 8 then link (e 3) (e 2) s
              else if c = 9 then link (e 0) (e 2) s
              else if c = 10
              then do {
                average_value \<leftarrow> average_value grid (x, y);
                if fless average_value (Fin 0)
                then link (e 1) (e 0) s \<bind> link (e 3) (e 2)
                else link (e 3) (e 0) s \<bind> link (e 1) (e 2)
              }
              else if c = 11 then link (e 1) (e 2) s
              else if c = 12 then link (e 3) (e 1) s
              else if c = 13 then link (e 0) (e 1) s
              else if c = 14 then link (e 3) (e 0) s
              else Some s)"
  using assms unfolding adjacency_cell_def by (simp add: Let_def)








section \<open>Array accesses of cycle discovery and of the neighbourhood search\<close>

lemma py_range_simps:
  "py_range 2 = [0, 1]" "py_range 4 = [0, 1, 2, 3]" "py_range 5 = [0, 1, 2, 3, 4]"
  by (simp_all add: py_range_def upt_rec)

lemma cell_configuration_last_row:
  assumes "field_shape binary_grid = (W, H)"
  shows "cell_configuration binary_grid (x, H - 1) = None \<and>
         cell_configuration binary_grid (W - 1, y) = None"
  using assms
  by (auto simp: cell_configuration_def get2_def in_shape_def split: Option.bind_splits)

lemma compute_neighbours_energies_border:
  assumes "0 \<le> e" "e < int (length next_edge)" "e < int (length cycle_index)"
    and "fst (edge_1d_to_3d_index shape e) < 2 \<or> fst (snd (edge_1d_to_3d_index shape e)) < 2"
  shows "compute_neighbours_energies points next_edge cycle_index shape e = None"
proof -
  have j: "edge_3d_to_1d_index shape (fst (edge_1d_to_3d_index shape e) + 0 - 2)
             (fst (snd (edge_1d_to_3d_index shape e)) + 0 - 2) 0 = - 1"
    using assms(4) by (auto simp: edge_3d_to_1d_index_def)
  have "neighbour_step points next_edge cycle_index shape ei ec (edge_1d_to_3d_index shape e) 0 0 0 st = None"
    for ei ec st
    unfolding neighbour_step_def j by (simp add: fget_def)
  then show ?thesis
    using assms(1-3)
    by (simp add: compute_neighbours_energies_def py_range_simps fget_def)
qed

lemma browse_grid_example:
  "browse_grid \<lparr>field_shape = (2, 2), at2 = (\<lambda>x y. Fin (- 1))\<rparr>
     \<lparr>field_shape = (2, 2), at2 = (\<lambda>x y. 0)\<rparr>
     (replicate 11 (- 1)) (replicate 11 (- 1)) (replicate 11 (0, 0)) = Some None"
  by (simp add: browse_grid_def browse_cell_def py_range_def upt_rec cell_configuration_def
      get2_def in_shape_def)

text \<open>
  C10 (defect). The claim is that the core never reads outside its arrays. The code
  does: \<open>browse_grid\<close> computes the cell configuration before it tests for the last
  row and column, so at every cell of the last row or column it reads \<open>binary_grid\<close>
  one sample beyond the grid; \<open>compute_neighbours_energies\<close> reads
  \<open>cycle_index[edge_J_1d_index]\<close> without testing for the sentinel \<open>-1\<close> that
  \<open>edge_3d_to_1d_index\<close> returns for a neighbour outside the grid, which happens for
  every reference edge whose 3D index has \<open>x < 2\<close> or \<open>y < 2\<close>. On the all-negative
  2 x 2 grid \<open>browse_grid\<close> stops at an out-of-bounds read.
\<close>

theorem core_reads_out_of_bounds:
  "(field_shape binary_grid = (W, H) \<longrightarrow>
      cell_configuration binary_grid (x, H - 1) = None \<and>
      cell_configuration binary_grid (W - 1, y) = None) \<and>
   (0 \<le> e \<and> e < int (length next_edge) \<and> e < int (length cycle_index) \<and>
    (fst (edge_1d_to_3d_index shape e) < 2 \<or> fst (snd (edge_1d_to_3d_index shape e)) < 2) \<longrightarrow>
      compute_neighbours_energies points next_edge cycle_index shape e = None) \<and>
   browse_grid \<lparr>field_shape = (2, 2), at2 = (\<lambda>x y. Fin (- 1))\<rparr>
     \<lparr>field_shape = (2, 2), at2 = (\<lambda>x y. 0)\<rparr>
     (replicate 11 (- 1)) (replicate 11 (- 1)) (replicate 11 (0, 0)) = Some None"
  using cell_configuration_last_row [of binary_grid W H x y]
    compute_neighbours_energies_border [of e next_edge cycle_index shape points]
    browse_grid_example
  by blast

theorem core_reads_out_of_bounds_witness:
  "cell_configuration \<lparr>field_shape = (2, 2), at2 = (\<lambda>x y. 0)\<rparr> (0, 1) = None \<and>
   cell_configuration \<lparr>field_shape = (2, 2), at2 = (\<lambda>x y. 0)\<rparr> (1, 0) = None \<and>
   edge_1d_to_3d_index (5, 3) 19 = (0, 1, 1) \<and>
   compute_neighbours_energies
     [(NaN, NaN), (NaN, NaN), (NaN, NaN), (Fin (1 / 5), Fin (1 / 10)), (Fin (1 / 5), Fin (3 / 10)),
      (NaN, NaN), (NaN, NaN), (NaN, NaN), (NaN, NaN), (Fin (3 / 5), Fin (1 / 10)),
      (Fin (3 / 5), Fin (3 / 10)), (NaN, NaN), (NaN, NaN), (NaN, NaN), (NaN, NaN), (NaN, NaN),
      (NaN, NaN), (NaN, NaN), (NaN, NaN), (Fin (1 / 10), Fin (1 / 5)), (NaN, NaN), (NaN, NaN),
      (NaN, NaN), (Fin (3 / 10), Fin (1 / 5)), (NaN, NaN), (NaN, NaN), (NaN, NaN),
      (Fin (1 / 2), Fin (1 / 5)), (NaN, NaN), (NaN, NaN), (NaN, NaN), (Fin (7 / 10), Fin (1 / 5)),
      (NaN, NaN), (NaN, NaN), (NaN, NaN), (NaN, NaN), (NaN, NaN)]
     [- 1, - 1, - 1, 23, 19, - 1, - 1, - 1, - 1, 31, 27, - 1, - 1, - 1, - 1, - 1, - 1, - 1, - 1, 3,
      - 1, - 1, - 1, 4, - 1, - 1, - 1, 9, - 1, - 1, - 1, 10, - 1, - 1, - 1, - 1, - 1]
     [- 1, - 1, - 1, 0, 0, - 1, - 1, - 1, - 1, 1, 1, - 1, - 1, - 1, - 1, - 1, - 1, - 1, - 1, 0,
      - 1, - 1, - 1, 0, - 1, - 1, - 1, 1, - 1, - 1, - 1, 1, - 1, - 1, - 1, - 1, - 1]
     (5, 3) 19 = None"
proof -
  have t: "edge_1d_to_3d_index (5, 3) 19 = (0, 1, 1)"
    by (simp add: edge_1d_to_3d_index_def i32_def)
  show ?thesis
    using t
      core_reads_out_of_bounds
        [of "\<lparr>field_shape = (2, 2), at2 = (\<lambda>x y. 0)\<rparr>" 2 2 0 0 19
          "[- 1, - 1, - 1, 23, 19, - 1, - 1, - 1, - 1, 31, 27, - 1, - 1, - 1, - 1, - 1, - 1, - 1, - 1, 3,
      - 1, - 1, - 1, 4, - 1, - 1, - 1, 9, - 1, - 1, - 1, 10, - 1, - 1, - 1, - 1, - 1]"
          "[- 1, - 1, - 1, 0, 0, - 1, - 1, - 1, - 1, 1, 1, - 1, - 1, - 1, - 1, - 1, - 1, - 1, - 1, 0,
      - 1, - 1, - 1, 0, - 1, - 1, - 1, 1, - 1, - 1, - 1, 1, - 1, - 1, - 1, - 1, - 1]"
          "(5, 3)"]
    by simp
qed

text \<open>
  C5 (defect). The claim is that every edge with a next pointer has a point. On the
  2 x 2 grid with the values \<open>[[1, -1], [-1, -1]]\<close> the only cell has configuration
  1, so \<open>compute_adajcency\<close> links its top edge 0 to its left edge 6, but
  \<open>compute_points\<close> only writes right and bottom edges and leaves \<open>points[0]\<close> at
  the NaN it was filled with.
\<close>

theorem boundary_edge_without_point:
  "compute_points
     \<lparr>field_shape = (2, 2), at2 = (\<lambda>x y. if x = 0 \<and> y = 0 then Fin 1 else Fin (- 1))\<rparr>
     (compute_binary_grid
        \<lparr>field_shape = (2, 2), at2 = (\<lambda>x y. if x = 0 \<and> y = 0 then Fin 1 else Fin (- 1))\<rparr>
        \<lparr>field_shape = (2, 2), at2 = (\<lambda>x y. 0)\<rparr>)
     (replicate 11 (NaN, NaN)) = Some (replicate 11 (NaN, NaN)) \<and>
   compute_adajcency
     \<lparr>field_shape = (2, 2), at2 = (\<lambda>x y. if x = 0 \<and> y = 0 then Fin 1 else Fin (- 1))\<rparr>
     (compute_binary_grid
        \<lparr>field_shape = (2, 2), at2 = (\<lambda>x y. if x = 0 \<and> y = 0 then Fin 1 else Fin (- 1))\<rparr>
        \<lparr>field_shape = (2, 2), at2 = (\<lambda>x y. 0)\<rparr>)
     (replicate 11 (- 1)) (replicate 11 (- 1)) =
     Some ((replicate 11 (- 1))[6 := 0], (replicate 11 (- 1))[0 := 6]) \<and>
   fget ((replicate 11 (- 1))[0 := 6]) 0 = Some (6 :: int) \<and>
   fget (replicate 11 (NaN, NaN)) 0 = Some (NaN, NaN)"
  by (simp add: compute_points_def points_cell_def compute_adajcency_def adjacency_cell_def
      compute_binary_grid_def binary_value_eq cell_configuration_def get2_def in_shape_def
      py_range_def upt_rec index2d_to_edge_index_def link_def fset_def fget_def)

section \<open>The pairing of next and previous pointers\<close>

lemma adj_inv_link:
  assumes inv: "adj_inv N R s" and U: "arc_universe N U" and RU: "R \<subseteq> U" and ab: "(a, b) \<in> U"
  shows "\<exists>s'. link a b s = Some s' \<and> adj_inv N (insert (a, b) R) s'"
proof -
  obtain p n where s: "s = (p, n)" by (cases s)
  have rng: "0 \<le> a" "a < int N" "0 \<le> b" "b < int N"
    using U ab unfolding arc_universe_def by auto
  have len: "length p = N" "length n = N" using inv unfolding adj_inv_def s by auto
  have l: "link a b s = Some (p[nat b := a], n[nat a := b])"
    unfolding s using rng len by (simp add: link_def fset_def)
  have fn: "b' = b" if "(a, b') \<in> R" for b'
    using U ab RU that unfolding arc_universe_def by blast
  have inj: "a' = a" if "(a', b) \<in> R" for a'
    using U ab RU that unfolding arc_universe_def by blast
  have R4: "0 \<le> a' \<and> a' < int N \<and> 0 \<le> b' \<and> b' < int N \<and> n ! nat a' = b' \<and> p ! nat b' = a'"
    if "(a', b') \<in> R" for a' b'
    using inv that unfolding adj_inv_def s by auto
  have "adj_inv N (insert (a, b) R) (p[nat b := a], n[nat a := b])"
    unfolding adj_inv_def
  proof (intro conjI allI impI ballI)
    show "length (fst (p[nat b := a], n[nat a := b])) = N" using len by simp
    show "length (snd (p[nat b := a], n[nat a := b])) = N" using len by simp
  next
    fix i assume i: "i < N" and ne: "snd (p[nat b := a], n[nat a := b]) ! i \<noteq> - 1"
    show "(int i, snd (p[nat b := a], n[nat a := b]) ! i) \<in> insert (a, b) R"
    proof (cases "i = nat a")
      case True
      then show ?thesis using rng len by simp
    next
      case False
      then have "n ! i \<noteq> - 1" using ne by simp
      then have "(int i, n ! i) \<in> R" using inv i unfolding adj_inv_def s by simp
      then show ?thesis using False by simp
    qed
  next
    fix i assume i: "i < N" and ne: "fst (p[nat b := a], n[nat a := b]) ! i \<noteq> - 1"
    show "(fst (p[nat b := a], n[nat a := b]) ! i, int i) \<in> insert (a, b) R"
    proof (cases "i = nat b")
      case True
      then show ?thesis using rng len by simp
    next
      case False
      then have "p ! i \<noteq> - 1" using ne by simp
      then have "(p ! i, int i) \<in> R" using inv i unfolding adj_inv_def s by simp
      then show ?thesis using False by simp
    qed
  next
    fix x assume x: "x \<in> insert (a, b) R"
    obtain a' b' where x': "x = (a', b')" by (cases x)
    have "0 \<le> a' \<and> a' < int N \<and> 0 \<le> b' \<and> b' < int N \<and>
          (n[nat a := b]) ! nat a' = b' \<and> (p[nat b := a]) ! nat b' = a'"
    proof (cases "(a', b') = (a, b)")
      case True
      then show ?thesis using rng len by simp
    next
      case False
      then have in_R: "(a', b') \<in> R" using x x' by auto
      note r = R4 [OF in_R]
      have "(n[nat a := b]) ! nat a' = b'"
      proof (cases "nat a' = nat a")
        case True
        then have "a' = a" using r rng by arith
        then have "b' = b" using fn in_R by simp
        then show ?thesis using \<open>a' = a\<close> rng len by simp
      next
        case False
        then show ?thesis using r by simp
      qed
      moreover have "(p[nat b := a]) ! nat b' = a'"
      proof (cases "nat b' = nat b")
        case True
        then have "b' = b" using r rng by arith
        then have "a' = a" using inj in_R by simp
        then show ?thesis using \<open>b' = b\<close> rng len by simp
      next
        case False
        then show ?thesis using r by simp
      qed
      ultimately show ?thesis using r by simp
    qed
    then show "case x of (a', b') \<Rightarrow> 0 \<le> a' \<and> a' < int N \<and> 0 \<le> b' \<and> b' < int N \<and>
          snd (p[nat b := a], n[nat a := b]) ! nat a' = b' \<and>
          fst (p[nat b := a], n[nat a := b]) ! nat b' = a'"
      unfolding x' by simp
  qed
  then show ?thesis using l by blast
qed

lemma adj_inv_unlink:
  assumes inv: "adj_inv N R s" and RU: "R \<subseteq> U" and e: "0 \<le> e" "e < int N"
    and free: "\<forall>(a, b)\<in>U. a \<noteq> e \<and> b \<noteq> e"
  shows "\<exists>s'. unlink e s = Some s' \<and> adj_inv N R s'"
proof -
  obtain p n where s: "s = (p, n)" by (cases s)
  have len: "length p = N" "length n = N" using inv unfolding adj_inv_def s by auto
  have l: "unlink e s = Some (p[nat e := - 1], n[nat e := - 1])"
    unfolding s using e len by (simp add: unlink_def fset_def)
  have R4: "0 \<le> a' \<and> a' < int N \<and> 0 \<le> b' \<and> b' < int N \<and> n ! nat a' = b' \<and> p ! nat b' = a'
      \<and> a' \<noteq> e \<and> b' \<noteq> e"
    if "(a', b') \<in> R" for a' b'
    using inv that RU free unfolding adj_inv_def s by auto
  have "adj_inv N R (p[nat e := - 1], n[nat e := - 1])"
    unfolding adj_inv_def
  proof (intro conjI allI impI ballI)
    show "length (fst (p[nat e := - 1], n[nat e := - 1])) = N" using len by simp
    show "length (snd (p[nat e := - 1], n[nat e := - 1])) = N" using len by simp
  next
    fix i assume i: "i < N" and ne: "snd (p[nat e := - 1], n[nat e := - 1]) ! i \<noteq> - 1"
    then have "i \<noteq> nat e" using len by auto
    then show "(int i, snd (p[nat e := - 1], n[nat e := - 1]) ! i) \<in> R"
      using inv i ne unfolding adj_inv_def s by simp
  next
    fix i assume i: "i < N" and ne: "fst (p[nat e := - 1], n[nat e := - 1]) ! i \<noteq> - 1"
    then have "i \<noteq> nat e" using len by auto
    then show "(fst (p[nat e := - 1], n[nat e := - 1]) ! i, int i) \<in> R"
      using inv i ne unfolding adj_inv_def s by simp
  next
    fix x assume x: "x \<in> R"
    obtain a' b' where x': "x = (a', b')" by (cases x)
    note r = R4 [OF x [unfolded x']]
    have "nat a' \<noteq> nat e" "nat b' \<noteq> nat e" using r e by auto
    then show "case x of (a', b') \<Rightarrow> 0 \<le> a' \<and> a' < int N \<and> 0 \<le> b' \<and> b' < int N \<and>
          snd (p[nat e := - 1], n[nat e := - 1]) ! nat a' = b' \<and>
          fst (p[nat e := - 1], n[nat e := - 1]) ! nat b' = a'"
      unfolding x' using r by simp
  qed
  then show ?thesis using l by blast
qed

lemma adj_inv_paired:
  assumes "adj_inv N R (p, n)"
  shows "paired p n"
proof -
  have len: "length p = N" "length n = N" using assms unfolding adj_inv_def by auto
  have a: "fget p (n ! i) = Some (int i)" if "i < N" "n ! i \<noteq> - 1" for i
  proof -
    have "(int i, n ! i) \<in> R" using assms that unfolding adj_inv_def by simp
    then have "0 \<le> n ! i \<and> n ! i < int N \<and> p ! nat (n ! i) = int i"
      using assms unfolding adj_inv_def by auto
    then show ?thesis using len by (simp add: fget_def)
  qed
  have b: "fget n (p ! i) = Some (int i)" if "i < N" "p ! i \<noteq> - 1" for i
  proof -
    have "(p ! i, int i) \<in> R" using assms that unfolding adj_inv_def by simp
    then have "0 \<le> p ! i \<and> p ! i < int N \<and> n ! nat (p ! i) = int i"
      using assms unfolding adj_inv_def by auto
    then show ?thesis using len by (simp add: fget_def)
  qed
  show ?thesis
    unfolding paired_def list_all_iff using len a b by auto
qed

lemma adj_inv_initial: "adj_inv N {} (replicate N (- 1), replicate N (- 1))"
  by (simp add: adj_inv_def)

lemma fold_opt_preserves:
  assumes "\<And>x s. x \<in> set xs \<Longrightarrow> P s \<Longrightarrow> \<exists>s'. f x s = Some s' \<and> P s'" and "P s"
  shows "\<exists>s'. fold_opt f xs s = Some s' \<and> P s'"
  using assms
proof (induction xs arbitrary: s)
  case Nil
  then show ?case by simp
next
  case (Cons x xs)
  obtain s1 where s1: "f x s = Some s1" "P s1" using Cons.prems by force
  have "\<exists>s'. fold_opt f xs s1 = Some s' \<and> P s'"
    using Cons.prems(1) s1(2) by (intro Cons.IH) auto
  then show ?case using s1 by simp
qed

lemma slot_coord_edge:
  assumes "interior (W, H) q" "s \<in> {0, 1, 2, 3}"
  shows "edge_of (W, H) q s = flat_index (W, H) (slot_coord q s) \<and>
         edge_in_range (W, H) (fst (slot_coord q s)) (fst (snd (slot_coord q s)))
             (snd (snd (slot_coord q s)))"
  using assms
  by (cases q)
     (auto simp: interior_def edge_of_def slot_coord_def index2d_to_edge_index_def
        flat_index_def edge_in_range_def Let_def algebra_simps)

lemma edge_of_inj:
  assumes "interior (W, H) q" "s \<in> {0, 1, 2, 3}" "interior (W, H) q'" "s' \<in> {0, 1, 2, 3}"
    and eq: "edge_of (W, H) q s = edge_of (W, H) q' s'"
  shows "slot_coord q s = slot_coord q' s'"
proof -
  obtain cx cy cz where c: "slot_coord q s = (cx, cy, cz)" by (cases "slot_coord q s")
  obtain dx dy dz where d: "slot_coord q' s' = (dx, dy, dz)" by (cases "slot_coord q' s'")
  have 1: "edge_of (W, H) q s = flat_index (W, H) (cx, cy, cz)"
    "edge_in_range (W, H) cx cy cz"
    using slot_coord_edge [OF assms(1,2)] c by simp_all
  have 2: "edge_of (W, H) q' s' = flat_index (W, H) (dx, dy, dz)"
    "edge_in_range (W, H) dx dy dz"
    using slot_coord_edge [OF assms(3,4)] d by simp_all
  have "(cx, cy, cz) = flat_coord (W, H) (flat_index (W, H) (cx, cy, cz))"
    using flat_roundtrip [OF 1(2)] by simp
  also have "\<dots> = flat_coord (W, H) (flat_index (W, H) (dx, dy, dz))"
    using eq 1(1) 2(1) by simp
  also have "\<dots> = (dx, dy, dz)" using flat_roundtrip [OF 2(2)] by simp
  finally show ?thesis using c d by simp
qed

lemma slot_coord_ends:
  assumes "s \<in> {0, 1, 2, 3}" "s' \<in> {0, 1, 2, 3}" "slot_coord q s = slot_coord q' s'"
  shows "(q = q' \<and> s = s') \<or>
         (slot_from q s = slot_to q' s' \<and> slot_to q s = slot_from q' s')"
  using assms
  by (cases q; cases q')
     (auto simp: slot_coord_def slot_from_def slot_to_def corner_offset_def split: if_splits)

lemma slot_ends_same_cell:
  assumes "s \<in> {0, 1, 2, 3}" "s' \<in> {0, 1, 2, 3}"
  shows "slot_from q s = slot_from q s' \<longrightarrow> s = s'"
  using assms by (auto simp: slot_from_def corner_offset_def)

lemma cell_arc_slots_range:
  assumes "(sa, sb) \<in> set (cell_arc_slots c avg)"
  shows "sa \<in> {0, 1, 2, 3} \<and> sb \<in> {0, 1, 2, 3}"
  using assms by (auto simp: cell_arc_slots_def split: if_splits)

lemma cell_arc_slots_fun:
  assumes "(sa, sb) \<in> set (cell_arc_slots c avg)" "(sa', sb') \<in> set (cell_arc_slots c avg)"
  shows "(sa = sa' \<longrightarrow> sb = sb') \<and> (sb = sb' \<longrightarrow> sa = sa')"
  using assms by (auto simp: cell_arc_slots_def split: if_splits)

lemma sample_bit_cases: "sample_bit grid v = 0 \<or> sample_bit grid v = 1"
  by (simp add: sample_bit_def binary_value_cases)

lemma cell_arc_slots_bits:
  fixes b0 b1 b2 b3 :: int
  assumes bits: "b0 = 0 \<or> b0 = 1" "b1 = 0 \<or> b1 = 1" "b2 = 0 \<or> b2 = 1" "b3 = 0 \<or> b3 = 1"
    and arc: "(sa, sb) \<in> set (cell_arc_slots (1 * b0 + 2 * b1 + 4 * b2 + 8 * b3) avg)"
    and pick: "pick = (\<lambda>k. if k = 0 then b0 else if k = 1 then b1 else if k = 2 then b2 else b3)"
  shows "pick sa = 1 \<and> pick ((sa + 1) mod 4) = 0 \<and> pick sb = 0 \<and> pick ((sb + 1) mod 4) = 1"
  using bits arc unfolding pick
  apply (elim disjE)
  apply (simp_all add: cell_arc_slots_def split: if_splits)
  apply auto
  done

lemma arc_bits:
  assumes arc: "(sa, sb) \<in> set (cell_arc_slots (sample_conf grid q) avg)"
  shows "sample_bit grid (slot_from q sa) = 1 \<and> sample_bit grid (slot_to q sa) = 0 \<and>
         sample_bit grid (slot_from q sb) = 0 \<and> sample_bit grid (slot_to q sb) = 1"
proof -
  define pick where "pick = (\<lambda>k::int. if k = 0 then sample_bit grid (fst q, snd q)
     else if k = 1 then sample_bit grid (fst q, snd q + 1)
     else if k = 2 then sample_bit grid (fst q + 1, snd q + 1)
     else sample_bit grid (fst q + 1, snd q))"
  have p: "pick k = sample_bit grid (slot_from q k)" if "k \<in> {0, 1, 2, 3}" for k
    using that by (auto simp: pick_def slot_from_def corner_offset_def)
  have r: "sa \<in> {0, 1, 2, 3}" "sb \<in> {0, 1, 2, 3}"
    using cell_arc_slots_range [OF arc] by auto
  then have r': "(sa + 1) mod 4 \<in> {0, 1, 2, 3}" "(sb + 1) mod 4 \<in> {0, 1, 2, 3}"
    by auto
  have "pick sa = 1 \<and> pick ((sa + 1) mod 4) = 0 \<and> pick sb = 0 \<and> pick ((sb + 1) mod 4) = 1"
    by (rule cell_arc_slots_bits [OF sample_bit_cases sample_bit_cases sample_bit_cases
          sample_bit_cases arc [unfolded sample_conf_def] pick_def])
  then show ?thesis
    using p [OF r(1)] p [OF r(2)] p [OF r'(1)] p [OF r'(2)] by (simp add: slot_to_def)
qed

lemma grid_arcs_range:
  assumes "(a, b) \<in> grid_arcs grid (W, H)"
  shows "0 \<le> a \<and> a < int (nat (edge_fields_shape (W, H))) \<and>
         0 \<le> b \<and> b < int (nat (edge_fields_shape (W, H)))"
proof -
  obtain q sa sb where q: "interior (W, H) q" "a = edge_of (W, H) q sa" "b = edge_of (W, H) q sb"
    using assms unfolding grid_arcs_def by auto
  obtain x y where xy: "q = (x, y)" by (cases q)
  have i: "0 \<le> x" "x < W - 1" "0 \<le> y" "y < H - 1" using q(1) xy by (auto simp: interior_def)
  show ?thesis
    using edge_indexes_in_range [OF i, of sa] edge_indexes_in_range [OF i, of sb]
    unfolding q xy edge_of_def by auto
qed

lemma grid_arcs_source:
  assumes q: "interior (W, H) q" "(sa, sb) \<in> set (cell_arc_slots (sample_conf grid q) avg)"
    and q': "interior (W, H) q'" "(sa', sb') \<in> set (cell_arc_slots (sample_conf grid q') avg')"
  shows "edge_of (W, H) q sa = edge_of (W, H) q' sa' \<longrightarrow> q = q' \<and> sa = sa'"
    and "edge_of (W, H) q sb = edge_of (W, H) q' sb' \<longrightarrow> q = q' \<and> sb = sb'"
proof -
  note r = cell_arc_slots_range [OF q(2)] cell_arc_slots_range [OF q'(2)]
  note b = arc_bits [OF q(2)] arc_bits [OF q'(2)]
  show "edge_of (W, H) q sa = edge_of (W, H) q' sa' \<longrightarrow> q = q' \<and> sa = sa'"
  proof
    assume "edge_of (W, H) q sa = edge_of (W, H) q' sa'"
    then have "slot_coord q sa = slot_coord q' sa'"
      using edge_of_inj q(1) q'(1) r by blast
    then have "(q = q' \<and> sa = sa') \<or>
         (slot_from q sa = slot_to q' sa' \<and> slot_to q sa = slot_from q' sa')"
      using slot_coord_ends r by blast
    then show "q = q' \<and> sa = sa'" using b by auto
  qed
  show "edge_of (W, H) q sb = edge_of (W, H) q' sb' \<longrightarrow> q = q' \<and> sb = sb'"
  proof
    assume "edge_of (W, H) q sb = edge_of (W, H) q' sb'"
    then have "slot_coord q sb = slot_coord q' sb'"
      using edge_of_inj q(1) q'(1) r by blast
    then have "(q = q' \<and> sb = sb') \<or>
         (slot_from q sb = slot_to q' sb' \<and> slot_to q sb = slot_from q' sb')"
      using slot_coord_ends r by blast
    then show "q = q' \<and> sb = sb'" using b by auto
  qed
qed

lemma grid_arcs_universe:
  "arc_universe (nat (edge_fields_shape (W, H))) (grid_arcs grid (W, H))"
  unfolding arc_universe_def
proof (intro conjI ballI allI impI)
  fix x assume "x \<in> grid_arcs grid (W, H)"
  then show "case x of (a, b) \<Rightarrow> 0 \<le> a \<and> a < int (nat (edge_fields_shape (W, H))) \<and>
         0 \<le> b \<and> b < int (nat (edge_fields_shape (W, H)))"
    using grid_arcs_range [of "fst x" "snd x" grid W H] by (cases x) simp
next
  fix a b b' assume "(a, b) \<in> grid_arcs grid (W, H) \<and> (a, b') \<in> grid_arcs grid (W, H)"
  then obtain q sa sb q' sa' sb' where
    q: "interior (W, H) q" "(sa, sb) \<in> set (cell_arc_slots (sample_conf grid q) (sample_avg grid q))"
      "a = edge_of (W, H) q sa" "b = edge_of (W, H) q sb" and
    q': "interior (W, H) q'" "(sa', sb') \<in> set (cell_arc_slots (sample_conf grid q') (sample_avg grid q'))"
      "a = edge_of (W, H) q' sa'" "b' = edge_of (W, H) q' sb'"
    unfolding grid_arcs_def by blast
  have "q = q' \<and> sa = sa'"
    using grid_arcs_source(1) [OF q(1,2) q'(1,2)] q(3) q'(3) by simp
  then have "sb = sb'" using cell_arc_slots_fun [OF q(2), of sa' sb'] q'(2) by simp
  then show "b = b'" using q(4) q'(4) \<open>q = q' \<and> sa = sa'\<close> by simp
next
  fix a a' b assume "(a, b) \<in> grid_arcs grid (W, H) \<and> (a', b) \<in> grid_arcs grid (W, H)"
  then obtain q sa sb q' sa' sb' where
    q: "interior (W, H) q" "(sa, sb) \<in> set (cell_arc_slots (sample_conf grid q) (sample_avg grid q))"
      "a = edge_of (W, H) q sa" "b = edge_of (W, H) q sb" and
    q': "interior (W, H) q'" "(sa', sb') \<in> set (cell_arc_slots (sample_conf grid q') (sample_avg grid q'))"
      "a' = edge_of (W, H) q' sa'" "b = edge_of (W, H) q' sb'"
    unfolding grid_arcs_def by blast
  have "q = q' \<and> sb = sb'"
    using grid_arcs_source(2) [OF q(1,2) q'(1,2)] q(4) q'(4) by simp
  then have "sa = sa'" using cell_arc_slots_fun [OF q(2), of sa' sb'] q'(2) by simp
  then show "a = a'" using q(3) q'(3) \<open>q = q' \<and> sb = sb'\<close> by simp
qed

lemma uniform_cell_bits:
  assumes "sample_conf grid q = 0 \<or> sample_conf grid q = 15" "s \<in> {0, 1, 2, 3}"
  shows "sample_bit grid (slot_from q s) = sample_bit grid (slot_to q s)"
proof -
  have "sample_bit grid (fst q, snd q) = sample_bit grid (fst q, snd q + 1) \<and>
        sample_bit grid (fst q, snd q + 1) = sample_bit grid (fst q + 1, snd q + 1) \<and>
        sample_bit grid (fst q + 1, snd q + 1) = sample_bit grid (fst q + 1, snd q)"
    using assms(1) sample_bit_cases [of grid "(fst q, snd q)"]
      sample_bit_cases [of grid "(fst q, snd q + 1)"]
      sample_bit_cases [of grid "(fst q + 1, snd q + 1)"]
      sample_bit_cases [of grid "(fst q + 1, snd q)"]
    unfolding sample_conf_def by auto
  then show ?thesis
    using assms(2) by (auto simp: slot_to_def slot_from_def corner_offset_def)
qed

lemma uniform_cell_free:
  assumes q0: "interior (W, H) q0" "sample_conf grid q0 = 0 \<or> sample_conf grid q0 = 15"
    "s \<in> {0, 1, 2, 3}"
  shows "\<forall>(a, b)\<in>grid_arcs grid (W, H). a \<noteq> edge_of (W, H) q0 s \<and> b \<noteq> edge_of (W, H) q0 s"
proof (intro ballI)
  fix x assume x: "x \<in> grid_arcs grid (W, H)"
  obtain a b where ab: "x = (a, b)" by (cases x)
  obtain q sa sb where
    q: "interior (W, H) q" "(sa, sb) \<in> set (cell_arc_slots (sample_conf grid q) (sample_avg grid q))"
      "a = edge_of (W, H) q sa" "b = edge_of (W, H) q sb"
    using x unfolding ab grid_arcs_def by blast
  note r = cell_arc_slots_range [OF q(2)]
  note bt = arc_bits [OF q(2)]
  note u = uniform_cell_bits [OF q0(2,3)]
  have ne: "q0 = q \<and> s = t \<or> slot_from q0 s = slot_to q t \<and> slot_to q0 s = slot_from q t \<Longrightarrow>
     sample_bit grid (slot_from q t) \<noteq> sample_bit grid (slot_to q t) \<Longrightarrow> False" for t
    using u by auto
  have "a \<noteq> edge_of (W, H) q0 s"
  proof
    assume "a = edge_of (W, H) q0 s"
    then have "slot_coord q0 s = slot_coord q sa"
      using edge_of_inj [OF q0(1) q0(3) q(1), of sa] r q(3) by simp
    then have "(q0 = q \<and> s = sa) \<or>
         (slot_from q0 s = slot_to q sa \<and> slot_to q0 s = slot_from q sa)"
      using slot_coord_ends [OF q0(3), of sa q0 q] r by blast
    then show False using ne [of sa] bt by simp
  qed
  moreover have "b \<noteq> edge_of (W, H) q0 s"
  proof
    assume "b = edge_of (W, H) q0 s"
    then have "slot_coord q0 s = slot_coord q sb"
      using edge_of_inj [OF q0(1) q0(3) q(1), of sb] r q(4) by simp
    then have "(q0 = q \<and> s = sb) \<or>
         (slot_from q0 s = slot_to q sb \<and> slot_to q0 s = slot_from q sb)"
      using slot_coord_ends [OF q0(3), of sb q0 q] r by blast
    then show False using ne [of sb] bt by simp
  qed
  ultimately show "case x of (a, b) \<Rightarrow> a \<noteq> edge_of (W, H) q0 s \<and> b \<noteq> edge_of (W, H) q0 s"
    unfolding ab by simp
qed

lemma fold_opt_one: "fold_opt f [u] s = f u s"
  by (cases "f u s") simp_all

lemma fold_opt_two: "fold_opt f [u, v] s = f u s \<bind> f v"
proof (cases "f u s")
  case None
  then show ?thesis by simp
next
  case (Some a)
  then show ?thesis using fold_opt_one [of f v a] by simp
qed

lemma adjacency_cell_arcs:
  assumes sh: "field_shape grid = (W, H)" "field_shape bg0 = (W, H)"
    and q: "interior (W, H) (x, y)"
  shows "adjacency_cell grid (compute_binary_grid grid bg0) x y s =
     (if sample_conf grid (x, y) = 0 \<or> sample_conf grid (x, y) = 15
      then fold_opt (\<lambda>i. unlink (edge_of (W, H) (x, y) i)) [0, 1, 2, 3] s
      else fold_opt (\<lambda>(sa, sb). link (edge_of (W, H) (x, y) sa) (edge_of (W, H) (x, y) sb))
             (cell_arc_slots (sample_conf grid (x, y)) (sample_avg grid (x, y))) s)"
proof -
  have i: "0 \<le> x" "x < W - 1" "0 \<le> y" "y < H - 1" using q by (auto simp: interior_def)
  have conf: "cell_configuration (compute_binary_grid grid bg0) (x, y) =
      Some (sample_conf grid (x, y))"
    using sh i
    by (simp add: cell_configuration_def get2_def compute_binary_grid_def in_shape_def
        sample_conf_def sample_bit_def)
  have av: "average_value grid (x, y) = Some (sample_avg grid (x, y))"
    using sh i by (simp add: average_value_def get2_def in_shape_def sample_avg_def)
  have shb: "field_shape (compute_binary_grid grid bg0) = (W, H)"
    using sh by (simp add: compute_binary_grid_def)
  have ne: "x \<noteq> W - 1" "y \<noteq> H - 1" using i by auto
  show ?thesis
    unfolding adjacency_cell_unfold [OF shb ne conf] Let_def av
    by (simp add: cell_arc_slots_def edge_of_def fold_opt_two fold_opt_one del: fold_opt.simps(2))
qed

lemma adj_good_link:
  assumes "adj_good N U s" "arc_universe N U" "(a, b) \<in> U"
  shows "\<exists>s'. link a b s = Some s' \<and> adj_good N U s'"
proof -
  obtain R where R: "R \<subseteq> U" "adj_inv N R s" using assms(1) unfolding adj_good_def by blast
  obtain s' where "link a b s = Some s'" "adj_inv N (insert (a, b) R) s'"
    using adj_inv_link [OF R(2) assms(2) R(1) assms(3)] by blast
  moreover have "insert (a, b) R \<subseteq> U" using R(1) assms(3) by simp
  ultimately show ?thesis unfolding adj_good_def by blast
qed

lemma adj_good_unlink:
  assumes "adj_good N U s" "0 \<le> e" "e < int N" "\<forall>(a, b)\<in>U. a \<noteq> e \<and> b \<noteq> e"
  shows "\<exists>s'. unlink e s = Some s' \<and> adj_good N U s'"
proof -
  obtain R where R: "R \<subseteq> U" "adj_inv N R s" using assms(1) unfolding adj_good_def by blast
  show ?thesis
    using adj_inv_unlink [OF R(2) R(1) assms(2,3,4)] R(1) unfolding adj_good_def by blast
qed

lemma adjacency_cell_good:
  assumes sh: "field_shape grid = (W, H)" "field_shape bg0 = (W, H)"
    and x: "x \<in> set (py_range W)" and y: "y \<in> set (py_range H)"
    and good: "adj_good (nat (edge_fields_shape (W, H))) (grid_arcs grid (W, H)) s"
  shows "\<exists>s'. adjacency_cell grid (compute_binary_grid grid bg0) x y s = Some s' \<and>
           adj_good (nat (edge_fields_shape (W, H))) (grid_arcs grid (W, H)) s'"
proof (cases "x \<noteq> W - 1 \<and> y \<noteq> H - 1")
  case False
  have "field_shape (compute_binary_grid grid bg0) = (W, H)"
    using sh by (simp add: compute_binary_grid_def)
  then have "adjacency_cell grid (compute_binary_grid grid bg0) x y s = Some s"
    using False by (auto simp: adjacency_cell_def)
  then show ?thesis using good by simp
next
  case True
  let ?N = "nat (edge_fields_shape (W, H))"
  let ?U = "grid_arcs grid (W, H)"
  have "0 \<le> x \<and> x < W \<and> 0 \<le> y \<and> y < H" using x y by (auto simp: py_range_def)
  then have q: "interior (W, H) (x, y)" using True by (auto simp: interior_def)
  have i: "0 \<le> x" "x < W - 1" "0 \<le> y" "y < H - 1" using q by (auto simp: interior_def)
  note U = grid_arcs_universe [of W H grid]
  show ?thesis
  proof (cases "sample_conf grid (x, y) = 0 \<or> sample_conf grid (x, y) = 15")
    case c: True
    have step: "\<exists>s'. unlink (edge_of (W, H) (x, y) k) t = Some s' \<and> adj_good ?N ?U s'"
      if "k \<in> set [0, 1, 2, 3]" "adj_good ?N ?U t" for k t
    proof -
      have k: "k \<in> {0, 1, 2, 3}" using that(1) by simp
      have r: "0 \<le> edge_of (W, H) (x, y) k \<and> edge_of (W, H) (x, y) k < int ?N"
        using edge_indexes_in_range [OF i, of k] unfolding edge_of_def by auto
      show ?thesis
        using adj_good_unlink [OF that(2) _ _ uniform_cell_free [OF q c k]] r by blast
    qed
    show ?thesis
      unfolding adjacency_cell_arcs [OF sh q] using c
      by (simp only: if_True) (rule fold_opt_preserves [OF step good])
  next
    case c: False
    have step: "\<exists>s'. (case a of (sa, sb) \<Rightarrow>
          link (edge_of (W, H) (x, y) sa) (edge_of (W, H) (x, y) sb)) t = Some s' \<and>
          adj_good ?N ?U s'"
      if "a \<in> set (cell_arc_slots (sample_conf grid (x, y)) (sample_avg grid (x, y)))"
        "adj_good ?N ?U t" for a t
    proof -
      obtain sa sb where a: "a = (sa, sb)" by (cases a)
      have "(edge_of (W, H) (x, y) sa, edge_of (W, H) (x, y) sb) \<in> ?U"
        unfolding grid_arcs_def using q that(1) a by blast
      then show ?thesis
        unfolding a using adj_good_link [OF that(2) U] by simp
    qed
    show ?thesis
      unfolding adjacency_cell_arcs [OF sh q] using c
      by (simp only: if_False) (rule fold_opt_preserves [OF step good])
  qed
qed

lemma compute_adajcency_paired:
  assumes sh: "field_shape grid = (W, H)" "field_shape bg0 = (W, H)"
  shows "\<exists>p n. compute_adajcency grid (compute_binary_grid grid bg0)
            (replicate (nat (edge_fields_shape (W, H))) (- 1))
            (replicate (nat (edge_fields_shape (W, H))) (- 1)) = Some (p, n) \<and>
          length n = nat (edge_fields_shape (W, H)) \<and> paired p n"
proof -
  let ?N = "nat (edge_fields_shape (W, H))"
  let ?U = "grid_arcs grid (W, H)"
  let ?bg = "compute_binary_grid grid bg0"
  have shb: "field_shape ?bg = (W, H)"
    using sh by (simp add: compute_binary_grid_def)
  have init: "adj_good ?N ?U (replicate ?N (- 1), replicate ?N (- 1))"
    unfolding adj_good_def using adj_inv_initial [of ?N] by blast
  have row: "\<exists>s'. fold_opt (adjacency_cell grid ?bg x) (py_range H) s = Some s' \<and> adj_good ?N ?U s'"
    if "x \<in> set (py_range W)" "adj_good ?N ?U s" for x s
    by (rule fold_opt_preserves [OF adjacency_cell_good [OF sh that(1)] that(2)])
  obtain s' where s': "compute_adajcency grid ?bg (replicate ?N (- 1)) (replicate ?N (- 1)) = Some s'"
    "adj_good ?N ?U s'"
    unfolding compute_adajcency_def shb fst_conv snd_conv
    using fold_opt_preserves [where f = "\<lambda>x. fold_opt (adjacency_cell grid ?bg x) (py_range H)"
        and P = "adj_good ?N ?U" and xs = "py_range W", OF row init] by blast
  obtain p n where pn: "s' = (p, n)" by (cases s')
  obtain R where R: "adj_inv ?N R (p, n)" using s'(2) unfolding adj_good_def pn by blast
  have "paired p n" by (rule adj_inv_paired [OF R])
  moreover have "length n = ?N" using R unfolding adj_inv_def by simp
  ultimately show ?thesis using s'(1) pn by blast
qed

lemma paired_iff:
  "paired p n \<longleftrightarrow>
     length p = length n \<and>
     (\<forall>i<length n. n ! i \<noteq> - 1 \<longrightarrow>
        0 \<le> n ! i \<and> n ! i < int (length n) \<and> p ! nat (n ! i) = int i) \<and>
     (\<forall>i<length n. p ! i \<noteq> - 1 \<longrightarrow>
        0 \<le> p ! i \<and> p ! i < int (length n) \<and> n ! nat (p ! i) = int i)"
  unfolding paired_def list_all_iff fget_def
  by (auto split: if_splits)

lemma splice_paired:
  assumes pr: "paired p n" and sp: "splice p n (i, j) = Some (p', n')"
  shows "paired p' n'"
proof -
  let ?N = "length n"
  have len: "length p = ?N" using pr unfolding paired_iff by simp
  have P1: "0 \<le> n ! k \<and> n ! k < int ?N \<and> p ! nat (n ! k) = int k"
    if "k < ?N" "n ! k \<noteq> - 1" for k
    using pr that unfolding paired_iff by blast
  have P2: "0 \<le> p ! k \<and> p ! k < int ?N \<and> n ! nat (p ! k) = int k"
    if "k < ?N" "p ! k \<noteq> - 1" for k
    using pr that unfolding paired_iff by blast
  define a c where "a = nat i" and "c = nat j"
  define b d where "b = nat (n ! a)" and "d = nat (n ! c)"
  have rng: "0 \<le> i" "i < int ?N" "0 \<le> j" "j < int ?N"
    "0 \<le> n ! a" "n ! a < int ?N" "0 \<le> n ! c" "n ! c < int ?N"
    and res: "p' = p[b := j, d := i]" "n' = n[a := n ! c, c := n ! a]"
    using sp len unfolding splice_def a_def c_def b_def d_def
    by (auto simp: fget_def fset_def Let_def split: if_splits Option.bind_splits)
  have lt: "a < ?N" "b < ?N" "c < ?N" "d < ?N"
    using rng unfolding a_def b_def c_def d_def by auto
  have ia: "i = int a" "j = int c" "n ! a = int b" "n ! c = int d"
    using rng unfolding a_def b_def c_def d_def by auto
  have pb: "p ! b = int a" using P1 [OF lt(1)] ia by simp
  have pd: "p ! d = int c" using P1 [OF lt(3)] ia by simp
  show ?thesis
  proof (cases "a = c")
    case True
    then have "b = d" unfolding b_def d_def by simp
    have "n[c := n ! c] = n" "p[d := p ! d] = p" by (rule list_update_id)+
    then have "n' = n" "p' = p"
      unfolding res using True \<open>b = d\<close> pb pd ia by simp_all
    then have "n' = n \<and> p' = p" by simp
    moreover have True by simp
    ultimately show ?thesis using pr by simp
  next
    case False
    have bd: "b \<noteq> d" using False pb pd by auto
    have n'a: "n' ! a = int d" unfolding res using lt False ia by simp
    have n'c: "n' ! c = int b" unfolding res using lt False ia by simp
    have n'k: "n' ! k = n ! k" if "k \<noteq> a" "k \<noteq> c" for k unfolding res using that by simp
    have p'b: "p' ! b = int c" unfolding res using lt bd ia len by simp
    have p'd: "p' ! d = int a" unfolding res using lt bd ia len by simp
    have p'k: "p' ! k = p ! k" if "k \<noteq> b" "k \<noteq> d" for k unfolding res using that by simp
    have A: "0 \<le> n' ! k \<and> n' ! k < int ?N \<and> p' ! nat (n' ! k) = int k"
      if k: "k < ?N" "n' ! k \<noteq> - 1" for k
    proof -
      consider "k = a" | "k = c" | "k \<noteq> a" "k \<noteq> c" by blast
      then show ?thesis
      proof cases
        case 1
        then show ?thesis using n'a p'd lt by simp
      next
        case 2
        then show ?thesis using n'c p'b lt by simp
      next
        case 3
        have nk: "n ! k \<noteq> - 1" using k(2) n'k [OF 3] by simp
        note q = P1 [OF k(1) nk]
        have "nat (n ! k) \<noteq> b" using q pb 3 by auto
        moreover have "nat (n ! k) \<noteq> d" using q pd 3 by auto
        ultimately show ?thesis using q n'k [OF 3] p'k by simp
      qed
    qed
    have B: "0 \<le> p' ! k \<and> p' ! k < int ?N \<and> n' ! nat (p' ! k) = int k"
      if k: "k < ?N" "p' ! k \<noteq> - 1" for k
    proof -
      consider "k = b" | "k = d" | "k \<noteq> b" "k \<noteq> d" by blast
      then show ?thesis
      proof cases
        case 1
        then show ?thesis using n'c p'b lt by simp
      next
        case 2
        then show ?thesis using n'a p'd lt by simp
      next
        case 3
        have pk: "p ! k \<noteq> - 1" using k(2) p'k [OF 3] by simp
        note q = P2 [OF k(1) pk]
        have "nat (p ! k) \<noteq> a" using q ia 3 by auto
        moreover have "nat (p ! k) \<noteq> c" using q ia 3 by auto
        ultimately show ?thesis using q p'k [OF 3] n'k by simp
      qed
    qed
    have "length p' = length n'" "length n' = ?N" unfolding res using len by simp_all
    then show ?thesis unfolding paired_iff using A B by simp
  qed
qed

lemma stitch_two_cycles_adjacency:
  assumes "stitch_two_cycles g ij = Some (Some g')"
  shows "splice (g_previous g) (g_next g) ij = Some (g_previous g', g_next g')"
  using assms unfolding stitch_two_cycles_def
  by (auto split: option.splits Option.bind_splits prod.splits)

lemma two_diamonds_paired:
  "paired (g_previous two_diamonds_graph) (g_next two_diamonds_graph)"
  by (simp add: paired_def two_diamonds_graph_def fget_def upt_rec)

lemma two_diamonds_stitch:
  "stitch_two_cycles two_diamonds_graph (19, 27) = Some (Some two_diamonds_stitched)"
  by (simp add: stitch_two_cycles_def two_diamonds_graph_def two_diamonds_stitched_def
      splice_def merge_cycles_def fget_def fset_def relabel_loop.simps)

text \<open>
  C4 (amended). On arrays filled with \<open>-1\<close>, \<open>compute_adajcency\<close> returns arrays
  that are paired, and \<open>stitch_two_cycles\<close> keeps paired arrays paired: for every
  edge \<open>i\<close> with a next pointer, \<open>previous_edge[next_edge[i]] = i\<close>, and for every
  edge \<open>i\<close> with a previous pointer, \<open>next_edge[previous_edge[i]] = i\<close>.
\<close>

theorem pairing_invariant:
  "(field_shape grid = (W, H) \<and> field_shape bg0 = (W, H) \<longrightarrow>
      (\<exists>p n. compute_adajcency grid (compute_binary_grid grid bg0)
                (replicate (nat (edge_fields_shape (W, H))) (- 1))
                (replicate (nat (edge_fields_shape (W, H))) (- 1)) = Some (p, n) \<and>
              paired p n)) \<and>
   (paired (g_previous g) (g_next g) \<and>
    stitch_two_cycles g minimal_energy_edges = Some (Some g') \<longrightarrow>
      paired (g_previous g') (g_next g'))"
proof (intro conjI impI)
  assume "field_shape grid = (W, H) \<and> field_shape bg0 = (W, H)"
  then show "\<exists>p n. compute_adajcency grid (compute_binary_grid grid bg0)
                (replicate (nat (edge_fields_shape (W, H))) (- 1))
                (replicate (nat (edge_fields_shape (W, H))) (- 1)) = Some (p, n) \<and>
              paired p n"
    using compute_adajcency_paired [of grid W H bg0] by blast
next
  assume a: "paired (g_previous g) (g_next g) \<and>
    stitch_two_cycles g minimal_energy_edges = Some (Some g')"
  obtain i j where ij: "minimal_energy_edges = (i, j)" by (cases minimal_energy_edges)
  show "paired (g_previous g') (g_next g')"
    using splice_paired [of "g_previous g" "g_next g" i j "g_previous g'" "g_next g'"]
      stitch_two_cycles_adjacency [of g minimal_energy_edges g'] a ij by simp
qed

theorem pairing_invariant_witness:
  "(\<exists>p n. compute_adajcency
             \<lparr>field_shape = (2, 2), at2 = (\<lambda>x y. if x = 0 \<and> y = 0 then Fin 1 else Fin (- 1))\<rparr>
             (compute_binary_grid
                \<lparr>field_shape = (2, 2), at2 = (\<lambda>x y. if x = 0 \<and> y = 0 then Fin 1 else Fin (- 1))\<rparr>
                \<lparr>field_shape = (2, 2), at2 = (\<lambda>x y. 0)\<rparr>)
             (replicate 11 (- 1)) (replicate 11 (- 1)) = Some (p, n) \<and> paired p n) \<and>
   paired (g_previous two_diamonds_graph) (g_next two_diamonds_graph) \<and>
   stitch_two_cycles two_diamonds_graph (19, 27) = Some (Some two_diamonds_stitched) \<and>
   paired (g_previous two_diamonds_stitched) (g_next two_diamonds_stitched)"
  using pairing_invariant
    [of "\<lparr>field_shape = (2, 2), at2 = (\<lambda>x y. if x = 0 \<and> y = 0 then Fin 1 else Fin (- 1))\<rparr>"
      2 2 "\<lparr>field_shape = (2, 2), at2 = (\<lambda>x y. 0)\<rparr>" two_diamonds_graph "(19, 27)"
      two_diamonds_stitched]
    two_diamonds_paired two_diamonds_stitch
  by (simp add: edge_fields_shape_def)

text \<open>
  C4 (as stated). The claim asks for \<open>next_edge[previous_edge[i]] = i\<close> at every
  edge with a next pointer. A contour that starts at the border of the grid has a
  first edge with a next pointer and no previous pointer: on the 2 x 2 grid
  \<open>[[1, -1], [-1, -1]]\<close>, \<open>next_edge[0] = 6\<close> and \<open>previous_edge[0] = -1\<close>.
\<close>

theorem pairing_open_contour_counterexample:
  "compute_adajcency
     \<lparr>field_shape = (2, 2), at2 = (\<lambda>x y. if x = 0 \<and> y = 0 then Fin 1 else Fin (- 1))\<rparr>
     (compute_binary_grid
        \<lparr>field_shape = (2, 2), at2 = (\<lambda>x y. if x = 0 \<and> y = 0 then Fin 1 else Fin (- 1))\<rparr>
        \<lparr>field_shape = (2, 2), at2 = (\<lambda>x y. 0)\<rparr>)
     (replicate 11 (- 1)) (replicate 11 (- 1)) =
     Some ((replicate 11 (- 1))[6 := 0], (replicate 11 (- 1))[0 := 6]) \<and>
   fget ((replicate 11 (- 1))[0 := 6]) 0 = Some (6 :: int) \<and>
   fget ((replicate 11 (- 1))[6 := 0]) 0 = Some (- 1 :: int) \<and>
   fget ((replicate 11 (- 1))[0 := 6]) (- 1) \<noteq> Some (0 :: int)"
  by (simp add: compute_adajcency_def adjacency_cell_def
      compute_binary_grid_def binary_value_eq cell_configuration_def get2_def in_shape_def
      py_range_def upt_rec index2d_to_edge_index_def link_def fset_def fget_def)

section \<open>The choice of a stitching iteration\<close>





lemma fless_PInf_iff: "fless a PInf \<longleftrightarrow> a \<noteq> NaN \<and> a \<noteq> PInf"
  by (cases a) auto


lemma fless_imp_fle: "fless a b \<Longrightarrow> fle a b"
  by (cases a; cases b) auto

lemma fle_refl_finite: "fless a PInf \<Longrightarrow> fle a a"
  by (cases a) auto







lemma keep_min_PInf [simp]: "keep_min (PInf, k) st = st"
  by (simp add: keep_min_def)






























end
